theory Spec2Isabelle
  imports Complex_Main "HOL-Library.Word"
begin

section \<open>JavaScript values\<close>

text \<open>
  A JavaScript string is a sequence of UTF-16 code units; \<open>length\<close>, \<open>slice\<close> and
  \<open>trim\<close> of \<^verbatim>\<open>species-card.tsx\<close> all count code units. String literals of the
  source are ASCII and are written \<open>js ''...''\<close>.
\<close>

type_synonym jschar = "16 word"
type_synonym jsstring = "jschar list"

definition js :: "string \<Rightarrow> jsstring" where
  "js s = map (\<lambda>c. word_of_nat (of_char c)) s"

text \<open>
  A JavaScript number is a double. Only its kind matters to this component (the schema
  rejects \<open>NaN\<close>); a finite double is kept as the rational it denotes.
\<close>

datatype jsnum = NaN | PosInfinity | NegInfinity | Finite rat

datatype jsval = Null | Str jsstring | Num jsnum | Bool bool

text \<open>A property that is absent from an object reads as \<open>undefined\<close>: \<open>None\<close>.\<close>

type_synonym jsobject = "string \<rightharpoonup> jsval"

text \<open>
  The parts of the platform that are not modelled are parameters of the model: what
  StringToNumber makes of a non-empty trimmed string, what the URL parser makes of the
  input once it has read a scheme, and zod's default error map (issue code to message).
\<close>

record env =
  string_numeric_literal :: "jsstring \<Rightarrow> jsnum"
  url_after_scheme :: "jsstring \<Rightarrow> jsstring \<Rightarrow> bool"
  default_message :: "string \<Rightarrow> jsstring"

subsection \<open>String.prototype.trim and String.prototype.slice\<close>

text \<open>WhiteSpace and LineTerminator of ECMAScript, which \<open>trim\<close> removes at both ends.\<close>

definition is_white_space :: "jschar \<Rightarrow> bool" where
  "is_white_space c \<longleftrightarrow>
     c \<in> {0x0009, 0x000B, 0x000C, 0xFEFF, 0x0020, 0x00A0, 0x1680, 0x202F, 0x205F, 0x3000,
          0x000A, 0x000D, 0x2028, 0x2029}
     \<or> (0x2000 \<le> c \<and> c \<le> 0x200A)"

definition js_trim :: "jsstring \<Rightarrow> jsstring" where
  "js_trim s = rev (dropWhile is_white_space (rev (dropWhile is_white_space s)))"

text \<open>\<open>s.slice(start, end)\<close>: negative arguments count from the end, both are clamped.\<close>

definition js_slice :: "int \<Rightarrow> int \<Rightarrow> jsstring \<Rightarrow> jsstring" where
  "js_slice start end s =
     (let len = int (length s);
          from = (if start < 0 then max (len + start) 0 else min start len);
          to = (if end < 0 then max (len + end) 0 else min end len)
      in if to \<le> from then [] else take (nat (to - from)) (drop (nat from) s))"

subsection \<open>Number(string)\<close>

text \<open>
  StringToNumber: the string is trimmed of white space; the empty string is \<open>+0\<close>;
  anything else is read as a StringNumericLiteral (\<open>NaN\<close> when it is none).
\<close>

definition Number_js :: "env \<Rightarrow> jsstring \<Rightarrow> jsnum" where
  "Number_js e s = (let t = js_trim s in if t = [] then Finite 0 else string_numeric_literal e t)"

subsection \<open>new URL(string)\<close>

text \<open>
  The URL parser with no base URL: leading and trailing C0 controls and spaces are
  stripped, tabs and newlines are removed, and the scheme start state and the scheme state
  read an ASCII letter followed by letters, digits, \<open>+\<close>, \<open>-\<close> and \<open>.\<close> up to a colon.
  Without such a scheme the parser is in the no scheme state, which fails for want of a
  base. \<open>URL_parses\<close> is true when the constructor returns and false when it throws.
\<close>

definition is_c0_or_space :: "jschar \<Rightarrow> bool" where
  "is_c0_or_space c \<longleftrightarrow> c \<le> 0x0020"

definition is_tab_or_newline :: "jschar \<Rightarrow> bool" where
  "is_tab_or_newline c \<longleftrightarrow> c = 0x0009 \<or> c = 0x000A \<or> c = 0x000D"

definition is_ascii_alpha :: "jschar \<Rightarrow> bool" where
  "is_ascii_alpha c \<longleftrightarrow> (0x41 \<le> c \<and> c \<le> 0x5A) \<or> (0x61 \<le> c \<and> c \<le> 0x7A)"

definition is_scheme_char :: "jschar \<Rightarrow> bool" where
  "is_scheme_char c \<longleftrightarrow>
     is_ascii_alpha c \<or> (0x30 \<le> c \<and> c \<le> 0x39) \<or> c = 0x2B \<or> c = 0x2D \<or> c = 0x2E"

definition ascii_lowercase :: "jschar \<Rightarrow> jschar" where
  "ascii_lowercase c = (if 0x41 \<le> c \<and> c \<le> 0x5A then c + 0x20 else c)"

definition URL_parses :: "env \<Rightarrow> jsstring \<Rightarrow> bool" where
  "URL_parses e s =
     (let stripped = rev (dropWhile is_c0_or_space (rev (dropWhile is_c0_or_space s)));
          input = filter (\<lambda>c. \<not> is_tab_or_newline c) stripped
      in case input of
           [] \<Rightarrow> False
         | c # cs \<Rightarrow>
             if is_ascii_alpha c then
               (case dropWhile is_scheme_char input of
                  [] \<Rightarrow> False
                | d # rest \<Rightarrow>
                    if d = 0x3A
                    then url_after_scheme e (map ascii_lowercase (takeWhile is_scheme_char input)) rest
                    else False)
             else False)"

section \<open>The species row\<close>

text \<open>
  \<open>Database["public"]["Tables"]["species"]["Row"]\<close>, with the columns the component
  reads. \<open>null\<close> is \<open>None\<close>.
\<close>

record species =
  species_id :: int
  scientific_name :: jsstring
  common_name :: "jsstring option"
  description :: "jsstring option"
  kingdom :: "jsstring option"
  total_population :: "jsnum option"
  image :: "jsstring option"
  author :: jsstring
  endangered :: bool

definition nullable_str :: "jsstring option \<Rightarrow> jsval" where
  "nullable_str v = (case v of None \<Rightarrow> Null | Some s \<Rightarrow> Str s)"

definition nullable_num :: "jsnum option \<Rightarrow> jsval" where
  "nullable_num v = (case v of None \<Rightarrow> Null | Some n \<Rightarrow> Num n)"

text \<open>\<open>a ?? b\<close>: \<open>b\<close> when \<open>a\<close> is \<open>null\<close> or \<open>undefined\<close>.\<close>

definition nullish :: "jsval option \<Rightarrow> jsval \<Rightarrow> jsval" where
  "nullish a b = (case a of None \<Rightarrow> b | Some Null \<Rightarrow> b | Some v \<Rightarrow> v)"

section \<open>The zod schema\<close>

text \<open>
  The schema of lines 57 to 65, with the types as zod 3 parses them. A zod type takes the
  value found under a key (\<open>None\<close> when the key is absent) and returns the parsed value
  or its issues, each the message of the issue. A number is any number but \<open>NaN\<close>.
  \<open>z.object\<close> collects the issues of its keys with their paths and, when there is none,
  returns an object with the schema's keys only: keys the schema does not know are
  stripped.
\<close>

type_synonym zod = "jsval option \<Rightarrow> jsstring list + jsval"

definition z_string :: "env \<Rightarrow> zod" where
  "z_string e v = (case v of Some (Str s) \<Rightarrow> Inr (Str s) | _ \<Rightarrow> Inl [default_message e ''invalid_type''])"

definition z_number :: "env \<Rightarrow> zod" where
  "z_number e v =
     (case v of
        Some (Num n) \<Rightarrow> if n = NaN then Inl [default_message e ''invalid_type''] else Inr (Num n)
      | _ \<Rightarrow> Inl [default_message e ''invalid_type''])"

definition z_boolean :: "env \<Rightarrow> zod" where
  "z_boolean e v = (case v of Some (Bool b) \<Rightarrow> Inr (Bool b) | _ \<Rightarrow> Inl [default_message e ''invalid_type''])"

text \<open>\<open>.min(n, { message })\<close> and \<open>.url()\<close> are checks on a string that has parsed.\<close>

definition z_min :: "nat \<Rightarrow> jsstring \<Rightarrow> zod \<Rightarrow> zod" where
  "z_min n message z v =
     (case z v of
        Inr (Str s) \<Rightarrow> if length s < n then Inl [message] else Inr (Str s)
      | r \<Rightarrow> r)"

definition z_url :: "env \<Rightarrow> zod \<Rightarrow> zod" where
  "z_url e z v =
     (case z v of
        Inr (Str s) \<Rightarrow> if URL_parses e s then Inr (Str s) else Inl [default_message e ''invalid_string'']
      | r \<Rightarrow> r)"

definition z_nullable :: "zod \<Rightarrow> zod" where
  "z_nullable z v = (if v = Some Null then Inr Null else z v)"

definition z_default :: "jsval \<Rightarrow> zod \<Rightarrow> zod" where
  "z_default d z v = (if v = None then Inr d else z v)"

type_synonym zod_object = "(string \<times> zod) list"

definition issues_of :: "zod_object \<Rightarrow> jsobject \<Rightarrow> (string \<times> jsstring) list" where
  "issues_of shape obj =
     concat (map (\<lambda>(k, z). case z (obj k) of Inl ms \<Rightarrow> map (Pair k) ms | Inr _ \<Rightarrow> []) shape)"

definition parsed_of :: "zod_object \<Rightarrow> jsobject \<Rightarrow> jsobject" where
  "parsed_of shape obj =
     map_of (concat (map (\<lambda>(k, z). case z (obj k) of Inl _ \<Rightarrow> [] | Inr v \<Rightarrow> [(k, v)]) shape))"

definition safeParse :: "zod_object \<Rightarrow> jsobject \<Rightarrow> (string \<times> jsstring) list + jsobject" where
  "safeParse shape obj =
     (if issues_of shape obj = [] then Inr (parsed_of shape obj) else Inl (issues_of shape obj))"

definition speciesSchema :: "env \<Rightarrow> zod_object" where
  "speciesSchema e =
     [(''scientific_name'', z_min 1 (js ''Scientific name is required.'') (z_string e)),
      (''common_name'', z_nullable (z_string e)),
      (''description'', z_nullable (z_string e)),
      (''kingdom'', z_nullable (z_string e)),
      (''total_population'', z_nullable (z_number e)),
      (''image'', z_nullable (z_url e (z_string e))),
      (''endangered'', z_default (Bool False) (z_boolean e))]"

section \<open>react-hook-form\<close>

text \<open>
  The form object of \<open>useForm\<close> (lines 91 to 95), as react-hook-form 7 keeps it: the
  current values, the default values and the errors by field name. The resolver is
  \<open>zodResolver(speciesSchema)\<close>: it returns the parsed object (\<open>Inr\<close>), or the errors, the
  first issue of each path (\<open>Inl\<close>).
\<close>

record form_state =
  formValues :: jsobject
  formDefaults :: jsobject
  formErrors :: "string \<rightharpoonup> jsstring"

definition zodResolver :: "zod_object \<Rightarrow> jsobject \<Rightarrow> (string \<rightharpoonup> jsstring) + jsobject" where
  "zodResolver shape vals =
     (case safeParse shape vals of
        Inr data \<Rightarrow> Inr data
      | Inl issues \<Rightarrow> Inl (map_of issues))"

definition useForm :: "jsobject \<Rightarrow> form_state" where
  "useForm defaults = \<lparr>formValues = defaults, formDefaults = defaults, formErrors = Map.empty\<rparr>"

text \<open>
  \<open>field.onChange(v)\<close> under \<open>mode: "onChange"\<close>: the value is stored, the resolver runs
  on the new values, and the error of the changed field is set or cleared from its result.
\<close>

definition field_onChange :: "zod_object \<Rightarrow> string \<Rightarrow> jsval \<Rightarrow> form_state \<Rightarrow> form_state" where
  "field_onChange shape name v f =
     (let vals = (formValues f)(name \<mapsto> v);
          errs = (case zodResolver shape vals of Inl errors \<Rightarrow> errors | Inr _ \<Rightarrow> Map.empty)
      in f\<lparr>formValues := vals, formErrors := (formErrors f)(name := errs name)\<rparr>)"

text \<open>\<open>form.reset(data)\<close>: values and default values become \<open>data\<close>, the errors are cleared.\<close>

definition form_reset :: "jsobject \<Rightarrow> form_state \<Rightarrow> form_state" where
  "form_reset data f = \<lparr>formValues = data, formDefaults = data, formErrors = Map.empty\<rparr>"

section \<open>The component\<close>

subsection \<open>State, effects and handlers\<close>

text \<open>
  The three \<open>useState\<close> flags and the form. What the component does to the outside is a
  list of effects in the order of the calls: the supabase requests, \<open>router.refresh()\<close>
  and \<open>toast\<close> (title, description, variant). \<open>onSubmit\<close> and \<open>handleDelete\<close> are one
  attempt from the call to the end of the body: the answer of the backend, the \<open>error\<close>
  of the awaited request, is an input. What else can happen while the request is awaited
  is the matter of the sessions below.
\<close>

record state =
  open_flag :: bool
  isEditing :: bool
  isDeleting :: bool
  form :: form_state

datatype effect =
    SupabaseUpdate int jsobject
  | SupabaseDelete int
  | RouterRefresh
  | Toast jsstring "jsstring option" "jsstring option"

datatype response = NoError | Error jsstring

definition defaultValues :: "species \<Rightarrow> jsobject" where
  "defaultValues sp =
     [''scientific_name'' \<mapsto> Str (scientific_name sp),
      ''common_name'' \<mapsto> nullable_str (common_name sp),
      ''description'' \<mapsto> nullable_str (description sp),
      ''kingdom'' \<mapsto> nullable_str (kingdom sp),
      ''total_population'' \<mapsto> nullable_num (total_population sp),
      ''image'' \<mapsto> nullable_str (image sp),
      ''author'' \<mapsto> Str (author sp),
      ''endangered'' \<mapsto> Bool (endangered sp)]"

definition initial :: "species \<Rightarrow> state" where
  "initial sp =
     \<lparr>open_flag = False, isEditing = False, isDeleting = False, form = useForm (defaultValues sp)\<rparr>"

definition onSubmit :: "species \<Rightarrow> jsobject \<Rightarrow> response \<Rightarrow> state \<Rightarrow> state \<times> effect list" where
  "onSubmit sp data r st =
     (case r of
        Error message \<Rightarrow>
          (st, [SupabaseUpdate (species_id sp) data,
                Toast (js ''Something went wrong.'') (Some message) (Some (js ''destructive''))])
      | NoError \<Rightarrow>
          (st\<lparr>isEditing := False, form := form_reset data (form st)\<rparr>,
           [SupabaseUpdate (species_id sp) data,
            RouterRefresh,
            Toast (js ''Species updated successfully!'') None None]))"

definition handleDelete :: "species \<Rightarrow> response \<Rightarrow> state \<Rightarrow> state \<times> effect list" where
  "handleDelete sp r st =
     (case r of
        Error message \<Rightarrow>
          (st, [SupabaseDelete (species_id sp),
                Toast (js ''Something went wrong.'') (Some message) (Some (js ''destructive''))])
      | NoError \<Rightarrow>
          (st\<lparr>isDeleting := False\<rparr>,
           [SupabaseDelete (species_id sp),
            RouterRefresh,
            Toast (js ''Species deleted successfully!'') None None]))"

text \<open>
  \<open>form.handleSubmit(onValid)(e)\<close>: the resolver runs on the form's values; with errors
  they become the form's errors and \<open>onValid\<close> is not called; without, the errors are
  cleared and \<open>onValid\<close> is called with the resolver's values.
\<close>

definition handleSubmit ::
  "zod_object \<Rightarrow> (jsobject \<Rightarrow> state \<Rightarrow> state \<times> effect list) \<Rightarrow> state \<Rightarrow> state \<times> effect list" where
  "handleSubmit shape onValid st =
     (case zodResolver shape (formValues (form st)) of
        Inl errors \<Rightarrow> (st\<lparr>form := (form st)\<lparr>formErrors := errors\<rparr>\<rparr>, [])
      | Inr data \<Rightarrow> onValid data (st\<lparr>form := (form st)\<lparr>formErrors := Map.empty\<rparr>\<rparr>))"

text \<open>
  The functions the JSX attaches to its elements: \<open>() => setIsEditing(true)\<close> and the
  like (also what a dialog's \<open>onOpenChange\<close> is called with), \<open>() => void handleDelete()\<close>,
  the form's \<open>onSubmit\<close>, and the three shapes of \<open>onChange\<close> of the inputs.
\<close>

datatype setter = SetOpen | SetIsEditing | SetIsDeleting

datatype handler =
    Set setter bool
  | HandleDelete
  | HandleSubmit
  | FieldOnChange string
  | FieldOnChangeNumber string
  | FieldOnChangeChecked string

record dom_event =
  target_value :: jsstring
  target_checked :: bool

fun perform :: "env \<Rightarrow> species \<Rightarrow> handler \<Rightarrow> dom_event \<Rightarrow> response \<Rightarrow> state \<Rightarrow> state \<times> effect list" where
  "perform e sp (Set SetOpen b) ev r st = (st\<lparr>open_flag := b\<rparr>, [])"
| "perform e sp (Set SetIsEditing b) ev r st = (st\<lparr>isEditing := b\<rparr>, [])"
| "perform e sp (Set SetIsDeleting b) ev r st = (st\<lparr>isDeleting := b\<rparr>, [])"
| "perform e sp HandleDelete ev r st = handleDelete sp r st"
| "perform e sp HandleSubmit ev r st = handleSubmit (speciesSchema e) (\<lambda>data. onSubmit sp data r) st"
| "perform e sp (FieldOnChange name) ev r st =
     (st\<lparr>form := field_onChange (speciesSchema e) name (Str (target_value ev)) (form st)\<rparr>, [])"
| "perform e sp (FieldOnChangeNumber name) ev r st =
     (st\<lparr>form := field_onChange (speciesSchema e) name (Num (Number_js e (target_value ev))) (form st)\<rparr>, [])"
| "perform e sp (FieldOnChangeChecked name) ev r st =
     (st\<lparr>form := field_onChange (speciesSchema e) name (Bool (target_checked ev)) (form st)\<rparr>, [])"

subsection \<open>The rendered tree\<close>

text \<open>
  What the component returns: a tree of React elements, each a tag, its props and its
  children; a child is also a string, a number, \<open>null\<close> or a boolean (the last two render
  nothing). Props that only style (\<open>className\<close>, \<open>style\<close>, \<open>fill\<close>, \<open>variant\<close>) are
  left out, and so is \<open>asChild\<close>, which every \<open>DialogTrigger\<close> and \<open>DialogClose\<close> of the
  source has.
\<close>

datatype jsx_prop =
    Src jsstring
  | Alt jsstring
  | Open bool
  | OnOpenChange setter
  | OnClick handler
  | OnSubmit handler
  | OnChange handler
  | Name string
  | Value jsval
  | Checked "jsval option"
  | Type string

datatype node = Child jsval | Element string "jsx_prop list" "node list"

definition str :: "string \<Rightarrow> node" where
  "str s = Child (Str (js s))"

text \<open>\<open>{s && (...)}\<close> for a nullable string, and \<open>{b && (...)}\<close> for a boolean.\<close>

definition and_str :: "jsstring option \<Rightarrow> (jsstring \<Rightarrow> node) \<Rightarrow> node" where
  "and_str v n = (case v of None \<Rightarrow> Child Null | Some s \<Rightarrow> if s = [] then Child (Str []) else n s)"

definition and_bool :: "bool \<Rightarrow> node \<Rightarrow> node" where
  "and_bool b n = (if b then n else Child (Bool False))"

text \<open>
  Line 149: \<open>species.description ? species.description.slice(0, 150).trim() + "..." : ""\<close>.
  \<open>null\<close> and the empty string are falsy.
\<close>

definition card_description :: "species \<Rightarrow> jsstring" where
  "card_description sp =
     (case description sp of
        None \<Rightarrow> []
      | Some d \<Rightarrow> if d = [] then [] else js_trim (js_slice 0 150 d) @ js ''...'')"

text \<open>
  Modelled from the spec: \<open>FormMessage\<close> of \<open>@/components/ui/form\<close> is not among the
  sources; validation errors are "shown inline per field": the element shows the message of
  the error of its field, and nothing when the field has none.
\<close>

definition FormMessage :: "form_state \<Rightarrow> string \<Rightarrow> node" where
  "FormMessage f name =
     Element ''FormMessage'' [] (case formErrors f name of None \<Rightarrow> [] | Some m \<Rightarrow> [Child (Str m)])"

text \<open>
  The seven \<open>FormField\<close>s have one shape: a label, the control that \<open>render\<close> is given
  (its tag and props), and the message.
\<close>

definition FormField :: "form_state \<Rightarrow> string \<Rightarrow> string \<Rightarrow> string \<Rightarrow> jsx_prop list \<Rightarrow> node" where
  "FormField f name label tag props =
     Element ''FormField'' [Name name]
       [Element ''FormItem'' []
          [Element ''FormLabel'' [] [str label],
           Element ''FormControl'' [] [Element tag props []],
           FormMessage f name]]"

definition detail_dialog :: "species \<Rightarrow> jsstring \<Rightarrow> state \<Rightarrow> node" where
  "detail_dialog sp sessionId st =
     Element ''Dialog'' [Open (open_flag st), OnOpenChange SetOpen]
       [Element ''DialogTrigger'' [] [Element ''Button'' [] [str ''Learn More'']],
        Element ''DialogContent'' []
          [Element ''DialogHeader'' []
             [Element ''DialogTitle'' [] [Child (Str (scientific_name sp))],
              Element ''DialogDescription'' [] [Child (nullable_str (common_name sp))]],
           Element ''div'' []
             [and_str (image sp) (\<lambda>src.
                Element ''div'' [] [Element ''Image'' [Src src, Alt (scientific_name sp)] []]),
              Element ''p'' []
                [Element ''strong'' [] [str ''Total Population:''], str '' '',
                 Child (nullable_num (total_population sp))],
              Element ''p'' []
                [Element ''strong'' [] [str ''Kingdom:''], str '' '',
                 Child (nullable_str (kingdom sp))],
              Element ''p'' []
                [str '' '', Element ''strong'' [] [str ''Endangered:''], str '' '',
                 str (if endangered sp then ''Yes'' else ''No''), str '' ''],
              Element ''p'' [] [Child (nullable_str (description sp))]],
           and_bool (author sp = sessionId)
             (Element ''div'' []
                [Element ''Button'' [OnClick (Set SetIsEditing True)] [str ''Edit Species''],
                 Element ''Button'' [OnClick (Set SetIsDeleting True)] [str ''Delete Species'']]),
           Element ''DialogClose'' [] [Element ''Button'' [] [str ''Close'']]]]"

definition edit_dialog :: "state \<Rightarrow> node" where
  "edit_dialog st =
     (let f = form st;
          val = (\<lambda>name. Value (nullish (formValues f name) (Str [])))
      in
      Element ''Dialog'' [Open (isEditing st), OnOpenChange SetIsEditing]
        [Element ''DialogContent'' []
           [Element ''DialogHeader'' []
              [Element ''DialogTitle'' [] [str ''Edit Species''],
               Element ''DialogDescription'' [] [str ''Edit the details of your species below.'']],
            Element ''Form'' []
              [Element ''form'' [OnSubmit HandleSubmit]
                 [FormField f ''scientific_name'' ''Scientific Name'' ''Input''
                    [Name ''scientific_name'', val ''scientific_name'',
                     OnChange (FieldOnChange ''scientific_name'')],
                  FormField f ''common_name'' ''Common Name'' ''Input''
                    [Name ''common_name'', val ''common_name'',
                     OnChange (FieldOnChange ''common_name'')],
                  FormField f ''kingdom'' ''Kingdom'' ''Input''
                    [Name ''kingdom'', val ''kingdom'', OnChange (FieldOnChange ''kingdom'')],
                  FormField f ''total_population'' ''Total Population'' ''Input''
                    [Type ''number'', Name ''total_population'', val ''total_population'',
                     OnChange (FieldOnChangeNumber ''total_population'')],
                  FormField f ''endangered'' ''Endangered Status'' ''Input''
                    [Type ''checkbox'', Checked (formValues f ''endangered''),
                     OnChange (FieldOnChangeChecked ''endangered'')],
                  FormField f ''image'' ''Image URL'' ''Input''
                    [Name ''image'', val ''image'', OnChange (FieldOnChange ''image'')],
                  FormField f ''description'' ''Description'' ''Textarea''
                    [Name ''description'', val ''description'',
                     OnChange (FieldOnChange ''description'')],
                  Element ''div'' []
                    [Element ''Button'' [Type ''submit''] [str ''Save Changes''],
                     Element ''DialogClose'' []
                       [Element ''Button'' [Type ''button''] [str ''Cancel'']]]]]]])"

definition delete_dialog :: "species \<Rightarrow> state \<Rightarrow> node" where
  "delete_dialog sp st =
     Element ''Dialog'' [Open (isDeleting st), OnOpenChange SetIsDeleting]
       [Element ''DialogContent'' []
          [Element ''DialogHeader'' []
             [Element ''DialogTitle'' [] [str ''Confirm Deletion''],
              Element ''DialogDescription'' []
                [str ''Are you sure you want to delete '',
                 Element ''strong'' [] [Child (Str (scientific_name sp))],
                 str ''? This action cannot be undone.'']],
           Element ''div'' []
             [Element ''Button'' [OnClick HandleDelete] [str ''Confirm Delete''],
              Element ''DialogClose'' [] [Element ''Button'' [] [str ''Cancel'']]]]]"

definition SpeciesCard :: "species \<Rightarrow> jsstring \<Rightarrow> state \<Rightarrow> node" where
  "SpeciesCard sp sessionId st =
     Element ''div'' []
       [and_str (image sp) (\<lambda>src.
          Element ''div'' [] [Element ''Image'' [Src src, Alt (scientific_name sp)] []]),
        Element ''h3'' [] [Child (Str (scientific_name sp))],
        Element ''h4'' [] [Child (nullable_str (common_name sp))],
        Element ''p'' [] [Child (Str (card_description sp))],
        detail_dialog sp sessionId st,
        and_bool (isEditing st) (edit_dialog st),
        and_bool (isDeleting st) (delete_dialog sp st)]"

subsection \<open>Reading the tree\<close>

text \<open>
  Every node of a tree, the children of a node that are strings, joined (a number child
  is none), and the buttons by label.
\<close>

fun elements :: "node \<Rightarrow> node list" where
  "elements (Child v) = [Child v]"
| "elements (Element tag ps cs) = Element tag ps cs # concat (map elements cs)"

definition child_text :: "node \<Rightarrow> jsstring" where
  "child_text n = (case n of Child (Str s) \<Rightarrow> s | _ \<Rightarrow> [])"

definition text_of :: "node list \<Rightarrow> jsstring" where
  "text_of cs = concat (map child_text cs)"

definition has_tag :: "string \<Rightarrow> node \<Rightarrow> bool" where
  "has_tag t n = (case n of Element tag ps cs \<Rightarrow> tag = t | Child v \<Rightarrow> False)"

definition children :: "node \<Rightarrow> node list" where
  "children n = (case n of Element tag ps cs \<Rightarrow> cs | Child v \<Rightarrow> [])"

definition button_labels :: "node \<Rightarrow> jsstring list" where
  "button_labels n = map (\<lambda>b. text_of (children b)) (filter (has_tag ''Button'') (elements n))"

text \<open>The paragraphs anywhere in a tree.\<close>

definition paragraphs :: "node \<Rightarrow> jsstring list" where
  "paragraphs n = map (\<lambda>p. text_of (children p)) (filter (has_tag ''p'') (elements n))"

text \<open>The paragraphs of the card itself: the \<open>p\<close> children of the root \<open>div\<close>.\<close>

definition card_paragraphs :: "node \<Rightarrow> jsstring list" where
  "card_paragraphs n = map (\<lambda>p. text_of (children p)) (filter (has_tag ''p'') (children n))"

text \<open>
  The messages a tree shows for the field of a name: the text of every \<open>FormMessage\<close>
  inside a \<open>FormField\<close> of that name.
\<close>

definition props_of :: "node \<Rightarrow> jsx_prop list" where
  "props_of n = (case n of Element tag ps cs \<Rightarrow> ps | Child v \<Rightarrow> [])"

definition messages :: "node \<Rightarrow> jsstring list" where
  "messages n = map (\<lambda>m. text_of (children m)) (filter (has_tag ''FormMessage'') (elements n))"

definition field_messages :: "string \<Rightarrow> node \<Rightarrow> jsstring list" where
  "field_messages name n =
     concat (map messages
       (filter (\<lambda>f. has_tag ''FormField'' f \<and> Name name \<in> set (props_of f)) (elements n)))"

subsection \<open>Calls of the handlers\<close>

text \<open>
  The handlers the JSX attaches to the elements of a tree: every \<open>onClick\<close>, \<open>onSubmit\<close>
  and \<open>onChange\<close>, and for the \<open>onOpenChange\<close> of a dialog the setter called with
  \<open>true\<close> and with \<open>false\<close>. Whatever the widgets do with an event, what runs is one of
  these. A call of a handler that the tree of the current state does not hold does
  nothing.
\<close>

fun prop_handlers :: "jsx_prop \<Rightarrow> handler list" where
  "prop_handlers (OnClick h) = [h]"
| "prop_handlers (OnSubmit h) = [h]"
| "prop_handlers (OnChange h) = [h]"
| "prop_handlers (OnOpenChange s) = [Set s True, Set s False]"
| "prop_handlers p = []"

definition node_handlers :: "node \<Rightarrow> handler list" where
  "node_handlers n =
     (case n of Element tag ps cs \<Rightarrow> concat (map prop_handlers ps) | Child v \<Rightarrow> [])"

definition attached :: "node \<Rightarrow> handler list" where
  "attached n = concat (map node_handlers (elements n))"

text \<open>
  \<open>onSubmit\<close> and \<open>handleDelete\<close> are \<open>async\<close>. A call runs to the \<open>await\<close> of line 99
  or 121, where the request is sent, and returns: the request is in flight, with the
  \<open>data\<close> the call was given, and other handlers can be called. \<open>invoke\<close> is a call up
  to there: the new state, the effects and the request it leaves in flight, if any. The
  other handlers send nothing and take no answer.
\<close>

datatype request = UpdateRequest jsobject | DeleteRequest

fun invoke ::
  "env \<Rightarrow> species \<Rightarrow> handler \<Rightarrow> dom_event \<Rightarrow> state \<Rightarrow> state \<times> effect list \<times> request list" where
  "invoke e sp HandleSubmit ev st =
     (case zodResolver (speciesSchema e) (formValues (form st)) of
        Inl errors \<Rightarrow> (st\<lparr>form := (form st)\<lparr>formErrors := errors\<rparr>\<rparr>, [], [])
      | Inr data \<Rightarrow>
          (st\<lparr>form := (form st)\<lparr>formErrors := Map.empty\<rparr>\<rparr>,
           [SupabaseUpdate (species_id sp) data], [UpdateRequest data]))"
| "invoke e sp HandleDelete ev st = (st, [SupabaseDelete (species_id sp)], [DeleteRequest])"
| "invoke e sp h ev st =
     (fst (perform e sp h ev NoError st), snd (perform e sp h ev NoError st), [])"

text \<open>
  The rest of the body, lines 101 to 116 and 123 to 137, runs when the answer arrives, on
  the state of that moment.
\<close>

definition resume :: "request \<Rightarrow> response \<Rightarrow> state \<Rightarrow> state \<times> effect list" where
  "resume q r st =
     (case q of
        UpdateRequest data \<Rightarrow>
          (case r of
             Error message \<Rightarrow>
               (st, [Toast (js ''Something went wrong.'') (Some message) (Some (js ''destructive''))])
           | NoError \<Rightarrow>
               (st\<lparr>isEditing := False, form := form_reset data (form st)\<rparr>,
                [RouterRefresh, Toast (js ''Species updated successfully!'') None None]))
      | DeleteRequest \<Rightarrow>
          (case r of
             Error message \<Rightarrow>
               (st, [Toast (js ''Something went wrong.'') (Some message) (Some (js ''destructive''))])
           | NoError \<Rightarrow>
               (st\<lparr>isDeleting := False\<rparr>,
                [RouterRefresh, Toast (js ''Species deleted successfully!'') None None])))"

text \<open>
  A session is a list of events: a call of a handler, with the event the handler is
  given, or the answer of the backend to one of the requests in flight, the \<open>n\<close>th of
  them, oldest first. An answer to a request that is not in flight is no event.
  \<open>calls_from\<close> runs a session from a state and the requests in flight there, \<open>calls\<close>
  from a state with none.
\<close>

datatype session_event = Call handler dom_event | Answer nat response

fun calls_from ::
  "env \<Rightarrow> species \<Rightarrow> jsstring \<Rightarrow> session_event list \<Rightarrow> request list \<Rightarrow> state \<Rightarrow>
   state \<times> effect list" where
  "calls_from e sp sessionId [] qs st = (st, [])"
| "calls_from e sp sessionId (Call h ev # cs) qs st =
     (if h \<in> set (attached (SpeciesCard sp sessionId st)) then
        (let (st', fx, new) = invoke e sp h ev st;
             (st'', fx') = calls_from e sp sessionId cs (qs @ new) st'
         in (st'', fx @ fx'))
      else calls_from e sp sessionId cs qs st)"
| "calls_from e sp sessionId (Answer n r # cs) qs st =
     (if n < length qs then
        (let (st', fx) = resume (qs ! n) r st;
             (st'', fx') = calls_from e sp sessionId cs (take n qs @ drop (Suc n) qs) st'
         in (st'', fx @ fx'))
      else calls_from e sp sessionId cs qs st)"

definition calls ::
  "env \<Rightarrow> species \<Rightarrow> jsstring \<Rightarrow> session_event list \<Rightarrow> state \<Rightarrow> state \<times> effect list" where
  "calls e sp sessionId cs st = calls_from e sp sessionId cs [] st"

text \<open>What the updates among the effects carry under a key, in the order they were sent.\<close>

definition sent :: "string \<Rightarrow> effect list \<Rightarrow> jsval option list" where
  "sent k fx = concat (map (\<lambda>x. case x of SupabaseUpdate i d \<Rightarrow> [d k] | _ \<Rightarrow> []) fx)"

subsection \<open>The controls a user can reach\<close>

text \<open>
  Modelled from the spec: the widgets of \<open>@/components/ui\<close> (dialog, button, form,
  input) are not among the sources; the spec has "a trigger opens a modal", "Cancel:
  closes modal with no request issued" and, per dialog, "Closed, Open, Closed". They wrap
  the dialog primitives, whose behaviour this is. The content of a \<open>Dialog\<close> whose
  \<open>open\<close> is false is not mounted. A click on the child of a \<open>DialogTrigger\<close> calls
  the \<open>onOpenChange\<close> of the dialog around it with the negation of its \<open>open\<close>, a
  click on the child of a \<open>DialogClose\<close> calls it with \<open>false\<close>, both after the child's
  own \<open>onClick\<close>; an open dialog is also dismissed (Escape, a click outside, the cross of
  its content), which calls \<open>onOpenChange\<close> with \<open>false\<close>. A click on a submit button
  (type \<open>submit\<close>, or none) inside a \<open>form\<close> submits it. A button is reached under the
  dialog it is in (named by the dialog's \<open>onOpenChange\<close>) and its label, an input under
  the name of its \<open>FormField\<close>.
\<close>

record ctx =
  ctx_dialog :: "setter option"
  ctx_open :: bool
  ctx_asChild :: "handler option"
  ctx_form :: "handler option"
  ctx_field :: "string option"

datatype control =
    ButtonControl "setter option" jsstring "handler list"
  | InputControl string handler
  | DismissControl setter

fun prop_Open :: "jsx_prop list \<Rightarrow> bool" where
  "prop_Open [] = False"
| "prop_Open (Open b # ps) = b"
| "prop_Open (p # ps) = prop_Open ps"

fun prop_OnOpenChange :: "jsx_prop list \<Rightarrow> setter option" where
  "prop_OnOpenChange [] = None"
| "prop_OnOpenChange (OnOpenChange s # ps) = Some s"
| "prop_OnOpenChange (p # ps) = prop_OnOpenChange ps"

fun prop_OnClick :: "jsx_prop list \<Rightarrow> handler option" where
  "prop_OnClick [] = None"
| "prop_OnClick (OnClick h # ps) = Some h"
| "prop_OnClick (p # ps) = prop_OnClick ps"

fun prop_OnSubmit :: "jsx_prop list \<Rightarrow> handler option" where
  "prop_OnSubmit [] = None"
| "prop_OnSubmit (OnSubmit h # ps) = Some h"
| "prop_OnSubmit (p # ps) = prop_OnSubmit ps"

fun prop_OnChange :: "jsx_prop list \<Rightarrow> handler option" where
  "prop_OnChange [] = None"
| "prop_OnChange (OnChange h # ps) = Some h"
| "prop_OnChange (p # ps) = prop_OnChange ps"

fun prop_Name :: "jsx_prop list \<Rightarrow> string option" where
  "prop_Name [] = None"
| "prop_Name (Name n # ps) = Some n"
| "prop_Name (p # ps) = prop_Name ps"

fun prop_Type :: "jsx_prop list \<Rightarrow> string option" where
  "prop_Type [] = None"
| "prop_Type (Type t # ps) = Some t"
| "prop_Type (p # ps) = prop_Type ps"

definition opt_list :: "'a option \<Rightarrow> 'a list" where
  "opt_list v = (case v of None \<Rightarrow> [] | Some x \<Rightarrow> [x])"

definition button_handlers :: "ctx \<Rightarrow> jsx_prop list \<Rightarrow> handler list" where
  "button_handlers c ps =
     opt_list (prop_OnClick ps) @ opt_list (ctx_asChild c) @
     (if prop_Type ps = Some ''submit'' \<or> prop_Type ps = None then opt_list (ctx_form c) else [])"

fun controls :: "ctx \<Rightarrow> node \<Rightarrow> control list" where
  "controls c (Child v) = []"
| "controls c (Element tag ps cs) =
     (if tag = ''Dialog'' then
        (if prop_Open ps then map DismissControl (opt_list (prop_OnOpenChange ps)) else []) @
        concat (map (\<lambda>n. if \<not> prop_Open ps \<and> has_tag ''DialogContent'' n then []
                          else controls (c\<lparr>ctx_dialog := prop_OnOpenChange ps,
                                          ctx_open := prop_Open ps, ctx_asChild := None\<rparr>) n) cs)
      else if tag = ''DialogTrigger'' then
        concat (map (controls (c\<lparr>ctx_asChild :=
                                     map_option (\<lambda>s. Set s (\<not> ctx_open c)) (ctx_dialog c)\<rparr>)) cs)
      else if tag = ''DialogClose'' then
        concat (map (controls (c\<lparr>ctx_asChild := map_option (\<lambda>s. Set s False) (ctx_dialog c)\<rparr>)) cs)
      else if tag = ''form'' then
        concat (map (controls (c\<lparr>ctx_form := prop_OnSubmit ps\<rparr>)) cs)
      else if tag = ''FormField'' then
        concat (map (controls (c\<lparr>ctx_field := prop_Name ps\<rparr>)) cs)
      else if tag = ''Button'' then
        [ButtonControl (ctx_dialog c) (text_of cs) (button_handlers c ps)]
      else if tag = ''Input'' \<or> tag = ''Textarea'' then
        (case (ctx_field c, prop_OnChange ps) of
           (Some name, Some h) \<Rightarrow> [InputControl name h]
         | _ \<Rightarrow> [])
      else concat (map (controls c) cs))"

definition no_ctx :: ctx where
  "no_ctx =
     \<lparr>ctx_dialog = None, ctx_open = False, ctx_asChild = None, ctx_form = None, ctx_field = None\<rparr>"

subsection \<open>Events on the controls\<close>

text \<open>
  A user clicks a button of some dialog, changes the input of some field or dismisses a
  dialog; the event
  reaches the handlers of the first such control that is mounted, and nothing when there
  is none. A step is one attempt: the answer to the request the event may send arrives
  before anything else happens.
\<close>

datatype ui_event = Click "setter option" jsstring | Change string dom_event | Dismiss setter

fun handlers_of :: "control list \<Rightarrow> ui_event \<Rightarrow> handler list" where
  "handlers_of [] ev = []"
| "handlers_of (ButtonControl d l hs # cs) (Click d' l') =
     (if d = d' \<and> l = l' then hs else handlers_of cs (Click d' l'))"
| "handlers_of (InputControl n h # cs) (Change n' v) =
     (if n = n' then [h] else handlers_of cs (Change n' v))"
| "handlers_of (DismissControl s # cs) (Dismiss s') =
     (if s = s' then [Set s False] else handlers_of cs (Dismiss s'))"
| "handlers_of (c # cs) ev = handlers_of cs ev"

definition dom_event_of :: "ui_event \<Rightarrow> dom_event" where
  "dom_event_of ev =
     (case ev of
        Click d l \<Rightarrow> \<lparr>target_value = [], target_checked = False\<rparr>
      | Change n v \<Rightarrow> v
      | Dismiss s \<Rightarrow> \<lparr>target_value = [], target_checked = False\<rparr>)"

fun perform_all ::
  "env \<Rightarrow> species \<Rightarrow> handler list \<Rightarrow> dom_event \<Rightarrow> response \<Rightarrow> state \<Rightarrow> state \<times> effect list" where
  "perform_all e sp [] ev r st = (st, [])"
| "perform_all e sp (h # hs) ev r st =
     (let (st', fx) = perform e sp h ev r st;
          (st'', fx') = perform_all e sp hs ev r st'
      in (st'', fx @ fx'))"

definition step ::
  "env \<Rightarrow> species \<Rightarrow> jsstring \<Rightarrow> ui_event \<Rightarrow> response \<Rightarrow> state \<Rightarrow> state \<times> effect list" where
  "step e sp sessionId ev r st =
     perform_all e sp (handlers_of (controls no_ctx (SpeciesCard sp sessionId st)) ev)
       (dom_event_of ev) r st"

subsection \<open>Sample inputs\<close>

text \<open>
  A platform whose number parser reads the unsigned decimal integers and whose URL parser
  accepts whatever follows a scheme, a row, the state of the component with its three
  dialogs open, the same with the scientific name blanked and with an image that is no
  URL, the event of an input that was cleared and of one that reads \<open>" 42 "\<close>, a
  description of 154 code units with white space around its first words, a session that
  opens the edit dialog, and one that saves, edits a field while the request is in
  flight, gets the answer, and saves again.
\<close>

definition decimal :: "jsstring \<Rightarrow> jsnum" where
  "decimal s =
     (if s \<noteq> [] \<and> list_all (\<lambda>c. 0x30 \<le> c \<and> c \<le> 0x39) s
      then Finite (of_nat (foldl (\<lambda>n c. 10 * n + (unat c - 48)) 0 s))
      else NaN)"

definition sample_env :: env where
  "sample_env =
     \<lparr>string_numeric_literal = decimal,
      url_after_scheme = (\<lambda>scheme rest. True),
      default_message = js\<rparr>"

definition lion :: species where
  "lion =
     \<lparr>species_id = 7,
      scientific_name = js ''Panthera leo'',
      common_name = Some (js ''Lion''),
      description = Some (js ''  A big cat.  ''),
      kingdom = Some (js ''Animalia''),
      total_population = None,
      image = None,
      author = js ''user-1'',
      endangered = True\<rparr>"

definition lion_dialogs :: state where
  "lion_dialogs = (initial lion)\<lparr>open_flag := True, isEditing := True, isDeleting := True\<rparr>"

definition lion_blank_name :: state where
  "lion_blank_name =
     lion_dialogs\<lparr>form := (form lion_dialogs)
       \<lparr>formValues := (defaultValues lion)(''scientific_name'' \<mapsto> Str [])\<rparr>\<rparr>"

definition lion_bad_image :: state where
  "lion_bad_image =
     lion_dialogs\<lparr>form := (form lion_dialogs)
       \<lparr>formValues := (defaultValues lion)(''image'' \<mapsto> Str (js ''not a url''))\<rparr>\<rparr>"

definition cleared :: dom_event where
  "cleared = \<lparr>target_value = [], target_checked = False\<rparr>"

definition forty_two :: dom_event where
  "forty_two = \<lparr>target_value = js '' 42 '', target_checked = False\<rparr>"

definition long_text :: jsstring where
  "long_text =
     [0x0009, 0x0020] @ js ''Panthera leo'' @ [0x00A0, 0x000A] @ replicate 134 0x0020 @ js ''tail''"

definition open_then_edit :: "session_event list" where
  "open_then_edit = [Call (Set SetOpen True) cleared, Call (Set SetIsEditing True) cleared]"

definition save_edit_answer_save :: "handler \<Rightarrow> session_event list" where
  "save_edit_answer_save edit =
     [Call (Set SetOpen True) cleared,
      Call (Set SetIsEditing True) cleared,
      Call HandleSubmit cleared,
      Call edit cleared,
      Answer 0 NoError,
      Call (Set SetIsEditing True) cleared,
      Call HandleSubmit cleared]"

section \<open>Properties of the platform functions\<close>

lemma js_slice_0: "0 \<le> n \<Longrightarrow> js_slice 0 n s = take (nat n) s"
  by (auto simp: js_slice_def Let_def min_def)

text \<open>
  What trimming is: the string is white space, then the trimmed string, then white space,
  and the trimmed string neither starts nor ends with white space.
\<close>

lemma rev_dropWhile_rev_takeWhile:
  "rev (dropWhile P (rev xs)) @ rev (takeWhile P (rev xs)) = xs"
  by (simp add: rev_append [symmetric] del: rev_append)

lemma js_trim_decomposition:
  "\<exists>l r. s = l @ js_trim s @ r \<and> (\<forall>c \<in> set l. is_white_space c) \<and> (\<forall>c \<in> set r. is_white_space c)"
proof -
  let ?t = "dropWhile is_white_space s"
  let ?l = "takeWhile is_white_space s"
  let ?r = "rev (takeWhile is_white_space (rev ?t))"
  have "?t = js_trim s @ ?r"
    by (simp only: js_trim_def rev_dropWhile_rev_takeWhile)
  then have "s = ?l @ js_trim s @ ?r" by (metis takeWhile_dropWhile_id)
  moreover have "\<forall>c \<in> set ?l. is_white_space c" by (auto dest: set_takeWhileD)
  moreover have "\<forall>c \<in> set ?r. is_white_space c" by (auto dest: set_takeWhileD)
  ultimately show ?thesis by blast
qed

lemma js_trim_ends:
  assumes "js_trim s \<noteq> []"
  shows "\<not> is_white_space (hd (js_trim s))" and "\<not> is_white_space (last (js_trim s))"
proof -
  let ?t = "dropWhile is_white_space s"
  let ?u = "dropWhile is_white_space (rev ?t)"
  from assms have u: "?u \<noteq> []" by (simp add: js_trim_def)
  then have "\<not> is_white_space (hd ?u)" by (rule hd_dropWhile)
  with u show "\<not> is_white_space (last (js_trim s))" by (simp add: js_trim_def last_rev)
  from u have t: "?t \<noteq> []" by (metis dropWhile.simps(1) rev_is_Nil_conv)
  then have h: "\<not> is_white_space (hd ?t)" by (rule hd_dropWhile)
  have "?t = js_trim s @ rev (takeWhile is_white_space (rev ?t))"
    by (simp only: js_trim_def rev_dropWhile_rev_takeWhile)
  with assms have "hd ?t = hd (js_trim s)" by (metis hd_append2)
  with h show "\<not> is_white_space (hd (js_trim s))" by simp
qed

lemma dropWhile_all: "\<forall>c \<in> set l. P c \<Longrightarrow> dropWhile P (l @ xs) = dropWhile P xs"
  by (induction l) simp_all

lemma dropWhile_hd: "xs \<noteq> [] \<Longrightarrow> \<not> P (hd xs) \<Longrightarrow> dropWhile P xs = xs"
  by (cases xs) simp_all

text \<open>And there is one such string only.\<close>

lemma js_trim_unique:
  assumes l: "\<forall>c \<in> set l. is_white_space c" and r: "\<forall>c \<in> set r. is_white_space c"
    and t: "t = [] \<or> \<not> is_white_space (hd t) \<and> \<not> is_white_space (last t)"
  shows "js_trim (l @ t @ r) = t"
proof (cases "t = []")
  case True
  from l r have "\<forall>c \<in> set (l @ r). is_white_space c" by auto
  then have "dropWhile is_white_space (l @ r) = []" by (simp only: dropWhile_eq_Nil_conv)
  with True show ?thesis by (simp only: js_trim_def append_Nil dropWhile.simps rev.simps)
next
  case False
  with t have h: "\<not> is_white_space (hd t)" and e: "\<not> is_white_space (last t)" by simp_all
  from False h have 1: "dropWhile is_white_space (t @ r) = t @ r"
    using dropWhile_hd [of "t @ r" is_white_space] by simp
  from r have r': "\<forall>c \<in> set (rev r). is_white_space c" by simp
  from False e have 2: "dropWhile is_white_space (rev t) = rev t"
    using dropWhile_hd [of "rev t" is_white_space] by (simp add: hd_rev)
  have "js_trim (l @ t @ r) = rev (dropWhile is_white_space (rev (dropWhile is_white_space (t @ r))))"
    by (simp add: js_trim_def dropWhile_all [OF l])
  also have "\<dots> = rev (dropWhile is_white_space (rev r @ rev t))" by (simp add: 1)
  also have "\<dots> = rev (dropWhile is_white_space (rev t))" by (simp only: dropWhile_all [OF r'])
  also have "\<dots> = t" by (simp add: 2)
  finally show ?thesis .
qed

lemma has_tag_simps [simp]:
  "has_tag t (Element tag ps cs) = (tag = t)"
  "has_tag t (Child v) = False"
  by (simp_all add: has_tag_def)

lemma children_simps [simp]:
  "children (Element tag ps cs) = cs"
  "children (Child v) = []"
  by (simp_all add: children_def)

lemma has_tag_and_str_div [simp]: "t \<noteq> ''div'' \<Longrightarrow> \<not> has_tag t (and_str v (\<lambda>src. Element ''div'' ps (cs src)))"
  by (simp add: and_str_def split: option.splits)

lemma has_tag_dialogs [simp]:
  "has_tag t (detail_dialog sp sid st) = (t = ''Dialog'')"
  "has_tag t (edit_dialog st) = (t = ''Dialog'')"
  "has_tag t (delete_dialog sp st) = (t = ''Dialog'')"
  by (auto simp: detail_dialog_def edit_dialog_def delete_dialog_def Let_def)

lemma has_tag_and_bool [simp]: "has_tag t (and_bool b n) = (b \<and> has_tag t n)"
  by (simp add: and_bool_def)

lemma text_of_simps [simp]:
  "text_of [] = []"
  "text_of (Child (Str s) # cs) = s @ text_of cs"
  "text_of (Child Null # cs) = text_of cs"
  "text_of (Child (Num n) # cs) = text_of cs"
  "text_of (Child (Bool b) # cs) = text_of cs"
  "text_of (Element tag ps ks # cs) = text_of cs"
  by (simp_all add: text_of_def child_text_def)

lemma of_char_lt: "(of_char c :: nat) < 256"
proof -
  have "(of_char c :: nat) mod 256 = of_char c" by simp
  then show ?thesis by (metis mod_less_divisor zero_less_numeral)
qed

lemma unat_js_char: "unat (word_of_nat (of_char c) :: 16 word) = of_char c"
proof -
  have "(of_char c :: nat) < 65536" using of_char_lt [of c] by linarith
  then show ?thesis by (simp add: unat_of_nat)
qed

lemma js_char_inj: "(word_of_nat (of_char c) :: 16 word) = word_of_nat (of_char d) \<longleftrightarrow> c = d"
proof
  assume "(word_of_nat (of_char c) :: 16 word) = word_of_nat (of_char d)"
  then have "unat (word_of_nat (of_char c) :: 16 word) = unat (word_of_nat (of_char d) :: 16 word)"
    by simp
  then have "(of_char c :: nat) = of_char d" by (simp only: unat_js_char)
  then show "c = d" by simp
qed simp

lemma js_eq_iff [simp]: "js a = js b \<longleftrightarrow> a = b"
proof -
  have "inj (\<lambda>c. word_of_nat (of_char c) :: 16 word)"
    by (rule injI) (simp add: js_char_inj)
  then show ?thesis by (simp add: js_def inj_map_eq_map)
qed

lemma js_Nil [simp]: "js [] = []" "js s = [] \<longleftrightarrow> s = []"
  by (simp_all add: js_def)

lemma button_labels_Element:
  "button_labels (Element tag ps cs) =
     (if tag = ''Button'' then [text_of cs] else []) @ concat (map button_labels cs)"
  unfolding button_labels_def by (simp add: filter_concat map_concat comp_def)

lemma button_labels_Child [simp]: "button_labels (Child v) = []"
  by (simp add: button_labels_def)

lemma button_labels_str [simp]: "button_labels (str s) = []"
  by (simp add: str_def)

lemma text_of_str [simp]: "text_of (str s # cs) = js s @ text_of cs"
  by (simp add: str_def)

lemma button_labels_and_str [simp]:
  "button_labels (and_str v n) = (case v of None \<Rightarrow> [] | Some s \<Rightarrow> if s = [] then [] else button_labels (n s))"
  by (simp add: and_str_def split: option.splits)

lemma button_labels_and_bool [simp]:
  "button_labels (and_bool b n) = (if b then button_labels n else [])"
  by (simp add: and_bool_def)

lemma button_labels_FormField [simp]:
  "tag \<noteq> ''Button'' \<Longrightarrow> button_labels (FormField f name label tag props) = []"
  by (cases "formErrors f name") (simp_all add: FormField_def FormMessage_def button_labels_Element)

lemma button_labels_detail:
  "button_labels (detail_dialog sp sid st) =
     js ''Learn More'' # (if author sp = sid then [js ''Edit Species'', js ''Delete Species''] else []) @ [js ''Close'']"
  by (simp add: detail_dialog_def button_labels_Element split: option.splits)

lemma button_labels_edit:
  "button_labels (edit_dialog st) = [js ''Save Changes'', js ''Cancel'']"
  by (simp add: edit_dialog_def button_labels_Element Let_def)

lemma button_labels_delete:
  "button_labels (delete_dialog sp st) = [js ''Confirm Delete'', js ''Cancel'']"
  by (simp add: delete_dialog_def button_labels_Element)

lemma button_labels_card:
  "button_labels (SpeciesCard sp sid st) =
     button_labels (detail_dialog sp sid st) @
     (if isEditing st then button_labels (edit_dialog st) else []) @
     (if isDeleting st then button_labels (delete_dialog sp st) else [])"
  by (simp add: SpeciesCard_def button_labels_Element split: option.splits)

section \<open>Properties of the schema\<close>

lemma issues_of_Nil [simp]: "issues_of [] obj = []"
  by (simp add: issues_of_def)

lemma issues_of_Cons:
  "issues_of ((k, z) # shape) obj =
     (case z (obj k) of Inl ms \<Rightarrow> map (Pair k) ms | Inr v \<Rightarrow> []) @ issues_of shape obj"
  by (simp add: issues_of_def)

lemma parsed_of_Nil [simp]: "parsed_of [] obj = Map.empty"
  by (simp add: parsed_of_def)

lemma parsed_of_Cons:
  "parsed_of ((k, z) # shape) obj =
     (case z (obj k) of Inl ms \<Rightarrow> parsed_of shape obj | Inr v \<Rightarrow> (parsed_of shape obj)(k \<mapsto> v))"
  by (auto simp: parsed_of_def split: sum.splits)

lemma issues_of_empty_iff:
  "issues_of shape obj = [] \<longleftrightarrow> (\<forall>(k, z) \<in> set shape. \<forall>ms. z (obj k) = Inl ms \<longrightarrow> ms = [])"
  by (induction shape) (auto simp: issues_of_Cons split: sum.splits)

lemma issues_of_nonempty:
  "(k, z) \<in> set shape \<Longrightarrow> z (obj k) = Inl (m # ms) \<Longrightarrow> issues_of shape obj \<noteq> []"
  by (auto simp: issues_of_empty_iff)

lemma map_of_issues_first:
  "z (obj k) = Inl (m # ms) \<Longrightarrow> map_of (issues_of ((k, z) # shape) obj) k = Some m"
  by (simp add: issues_of_Cons)

lemma parsed_of_key:
  "distinct (map fst shape) \<Longrightarrow> (k, z) \<in> set shape \<Longrightarrow> z (obj k) = Inr v \<Longrightarrow>
   parsed_of shape obj k = Some v"
proof (induction shape)
  case Nil
  then show ?case by simp
next
  case (Cons a shape)
  obtain k' z' where a: "a = (k', z')" by (cases a)
  show ?case
  proof (cases "k' = k")
    case True
    with Cons.prems a have "z' = z" by (auto simp: rev_image_eqI)
    with True a Cons.prems show ?thesis by (simp add: parsed_of_Cons)
  next
    case False
    with Cons a show ?thesis by (auto simp: parsed_of_Cons split: sum.splits)
  qed
qed

lemma parsed_of_other:
  "k \<notin> fst ` set shape \<Longrightarrow> parsed_of shape obj k = None"
  by (induction shape) (auto simp: parsed_of_Cons split: sum.splits)

lemma speciesSchema_keys:
  "map fst (speciesSchema e) =
     [''scientific_name'', ''common_name'', ''description'', ''kingdom'', ''total_population'',
      ''image'', ''endangered'']"
  by (simp add: speciesSchema_def)

lemma speciesSchema_distinct: "distinct (map fst (speciesSchema e))"
  by (simp add: speciesSchema_keys)

lemma zodResolver_Inr:
  "zodResolver shape vals = Inr data \<longleftrightarrow> issues_of shape vals = [] \<and> data = parsed_of shape vals"
  by (auto simp: zodResolver_def safeParse_def)

lemma zodResolver_Inl:
  "zodResolver shape vals = Inl errs \<longleftrightarrow> issues_of shape vals \<noteq> [] \<and> errs = map_of (issues_of shape vals)"
  by (auto simp: zodResolver_def safeParse_def)

lemma scientific_name_in_schema:
  "(''scientific_name'', z_min 1 (js ''Scientific name is required.'') (z_string e)) \<in> set (speciesSchema e)"
  by (simp add: speciesSchema_def)

lemma z_scientific_name_Inr:
  "z_min n m (z_string e) v = Inr w \<longleftrightarrow> (\<exists>s. v = Some (Str s) \<and> n \<le> length s \<and> w = Str s)"
  by (auto simp: z_min_def z_string_def split: option.splits jsval.splits)

lemma z_scientific_name_empty:
  "z_min 1 m (z_string e) (Some (Str [])) = Inl [m]"
  by (simp add: z_min_def z_string_def)

lemma total_population_in_schema:
  "(''total_population'', z_nullable (z_number e)) \<in> set (speciesSchema e)"
  by (simp add: speciesSchema_def)

lemma z_total_population_Num:
  "z_nullable (z_number e) (Some (Num n)) = Inr w \<Longrightarrow> w = Num n"
  by (auto simp: z_nullable_def z_number_def split: if_splits)

lemma image_in_schema:
  "(''image'', z_nullable (z_url e (z_string e))) \<in> set (speciesSchema e)"
  by (simp add: speciesSchema_def)

lemma z_image_Str:
  "z_nullable (z_url e (z_string e)) (Some (Str s)) =
     (if URL_parses e s then Inr (Str s) else Inl [default_message e ''invalid_string''])"
  by (simp add: z_nullable_def z_url_def z_string_def)

lemma URL_parses_Nil [simp]: "\<not> URL_parses e []"
  by (simp add: URL_parses_def)

lemma Number_js_Nil [simp]: "Number_js e [] = Finite 0"
  by (simp add: Number_js_def js_trim_def)

lemma issues_scientific_name_empty:
  assumes "vals ''scientific_name'' = Some (Str [])"
  shows "issues_of (speciesSchema e) vals \<noteq> []"
    and "map_of (issues_of (speciesSchema e) vals) ''scientific_name'' = Some (js ''Scientific name is required.'')"
proof -
  let ?z = "z_min 1 (js ''Scientific name is required.'') (z_string e)"
  have z: "?z (vals ''scientific_name'') = Inl [js ''Scientific name is required.'']"
    using assms by (simp only: z_scientific_name_empty)
  from issues_of_nonempty [of "''scientific_name''" ?z "speciesSchema e" vals] scientific_name_in_schema z
  show "issues_of (speciesSchema e) vals \<noteq> []" by blast
  obtain rest where "speciesSchema e = (''scientific_name'', ?z) # rest"
    by (simp add: speciesSchema_def)
  with map_of_issues_first [of ?z vals "''scientific_name''" _ "[]" rest] z
  show "map_of (issues_of (speciesSchema e) vals) ''scientific_name'' = Some (js ''Scientific name is required.'')"
    by simp
qed

lemma issues_image_not_url:
  assumes "vals ''image'' = Some (Str s)" "\<not> URL_parses e s"
  shows "issues_of (speciesSchema e) vals \<noteq> []"
  using assms issues_of_nonempty [OF image_in_schema, of e vals] by (simp add: z_image_Str)

lemma parsed_scientific_name:
  assumes "issues_of (speciesSchema e) vals = []"
  shows "\<exists>s. s \<noteq> [] \<and> vals ''scientific_name'' = Some (Str s) \<and> parsed_of (speciesSchema e) vals ''scientific_name'' = Some (Str s)"
proof -
  let ?z = "z_min 1 (js ''Scientific name is required.'') (z_string e)"
  obtain w where w: "?z (vals ''scientific_name'') = Inr w"
  proof (cases "?z (vals ''scientific_name'')")
    case (Inl ms)
    with assms scientific_name_in_schema [of e] have "ms = []" by (auto simp: issues_of_empty_iff)
    with Inl show ?thesis by (auto simp: z_min_def z_string_def split: option.splits jsval.splits if_splits)
  next
    case (Inr w)
    then show ?thesis using that by blast
  qed
  then obtain s where s: "vals ''scientific_name'' = Some (Str s)" "1 \<le> length s" "w = Str s"
    unfolding z_scientific_name_Inr by blast
  then have "s \<noteq> []" by auto
  from parsed_of_key [of "speciesSchema e" "''scientific_name''" ?z vals w]
    speciesSchema_distinct scientific_name_in_schema w s \<open>s \<noteq> []\<close> show ?thesis by auto
qed

lemma parsed_total_population:
  assumes "issues_of (speciesSchema e) vals = []" "vals ''total_population'' = Some (Num n)"
  shows "parsed_of (speciesSchema e) vals ''total_population'' = Some (Num n)"
proof -
  let ?z = "z_nullable (z_number e)"
  obtain w where w: "?z (vals ''total_population'') = Inr w"
  proof (cases "?z (vals ''total_population'')")
    case (Inl ms)
    with assms total_population_in_schema [of e] have "ms = []" by (auto simp: issues_of_empty_iff)
    with Inl assms show ?thesis by (auto simp: z_nullable_def z_number_def split: if_splits)
  next
    case (Inr w)
    then show ?thesis using that by blast
  qed
  with assms have "w = Num n" by (auto dest: z_total_population_Num)
  with parsed_of_key [of "speciesSchema e" "''total_population''" ?z vals w]
    speciesSchema_distinct total_population_in_schema w show ?thesis by simp
qed

lemma parsed_image:
  assumes "issues_of (speciesSchema e) vals = []" "vals ''image'' = Some (Str s)"
  shows "URL_parses e s \<and> parsed_of (speciesSchema e) vals ''image'' = Some (Str s)"
proof -
  have u: "URL_parses e s"
    using assms issues_image_not_url [of vals s e] by blast
  then have "z_nullable (z_url e (z_string e)) (vals ''image'') = Inr (Str s)"
    using assms by (simp add: z_image_Str)
  with parsed_of_key [of "speciesSchema e" "''image''" "z_nullable (z_url e (z_string e))" vals "Str s"]
    speciesSchema_distinct image_in_schema u show ?thesis by simp
qed

lemma map_of_issues_key:
  "distinct (map fst shape) \<Longrightarrow> (k, z) \<in> set shape \<Longrightarrow> z (obj k) = Inl (m # ms) \<Longrightarrow>
   map_of (issues_of shape obj) k = Some m"
proof (induction shape)
  case Nil
  then show ?case by simp
next
  case (Cons a shape)
  obtain k' z' where a: "a = (k', z')" by (cases a)
  show ?case
  proof (cases "k' = k")
    case True
    with Cons.prems a have "z' = z" by (auto simp: rev_image_eqI)
    with True a Cons.prems show ?thesis by (simp add: issues_of_Cons)
  next
    case False
    then have "map_of (case z' (obj k') of Inl ms \<Rightarrow> map (Pair k') ms | Inr v \<Rightarrow> []) k = None"
      by (auto simp: map_of_eq_None_iff split: sum.splits)
    with False Cons a show ?thesis by (auto simp: issues_of_Cons map_add_def)
  qed
qed

lemma z_image_Inr:
  "z_nullable (z_url e (z_string e)) v = Inr w \<longleftrightarrow>
     v = Some Null \<and> w = Null \<or> (\<exists>s. v = Some (Str s) \<and> URL_parses e s \<and> w = Str s)"
  by (auto simp: z_nullable_def z_url_def z_string_def split: option.splits jsval.splits)

lemma parsed_image_any:
  assumes "issues_of (speciesSchema e) vals = []"
  shows "parsed_of (speciesSchema e) vals ''image'' = Some Null \<or>
         (\<exists>s. URL_parses e s \<and> parsed_of (speciesSchema e) vals ''image'' = Some (Str s))"
proof -
  let ?z = "z_nullable (z_url e (z_string e))"
  obtain w where w: "?z (vals ''image'') = Inr w"
  proof (cases "?z (vals ''image'')")
    case (Inl ms)
    with assms image_in_schema [of e] have "ms = []" by (auto simp: issues_of_empty_iff)
    with Inl show ?thesis
      by (auto simp: z_nullable_def z_url_def z_string_def split: option.splits jsval.splits if_splits)
  next
    case (Inr w)
    then show ?thesis using that by blast
  qed
  with parsed_of_key [of "speciesSchema e" "''image''" ?z vals w]
    speciesSchema_distinct image_in_schema
  have "parsed_of (speciesSchema e) vals ''image'' = Some w" by simp
  with w show ?thesis unfolding z_image_Inr by auto
qed

section \<open>The controls of the card\<close>

lemma controls_str [simp]: "controls c (str s) = []"
  by (simp add: str_def)

lemma controls_and_bool [simp]: "controls c (and_bool b n) = (if b then controls c n else [])"
  by (simp add: and_bool_def)

lemma controls_image [simp]:
  "controls c (and_str v (\<lambda>src. Element ''div'' [] [Element ''Image'' (ps src) []])) = []"
  by (simp add: and_str_def split: option.splits)

lemma controls_FormMessage [simp]: "controls c (FormMessage f name) = []"
  by (cases "formErrors f name") (simp_all add: FormMessage_def)

lemma controls_FormField:
  "tag = ''Input'' \<or> tag = ''Textarea'' \<Longrightarrow>
   controls c (FormField f name label tag props) =
     (case prop_OnChange props of Some h \<Rightarrow> [InputControl name h] | None \<Rightarrow> [])"
  by (auto simp: FormField_def split: option.splits)

lemma controls_detail:
  "controls no_ctx (detail_dialog sp sid st) =
     (if open_flag st then [DismissControl SetOpen] else []) @
     ButtonControl (Some SetOpen) (js ''Learn More'') [Set SetOpen (\<not> open_flag st)] #
     (if open_flag st then
        (if author sp = sid then
           [ButtonControl (Some SetOpen) (js ''Edit Species'') [Set SetIsEditing True],
            ButtonControl (Some SetOpen) (js ''Delete Species'') [Set SetIsDeleting True]]
         else []) @
        [ButtonControl (Some SetOpen) (js ''Close'') [Set SetOpen False]]
      else [])"
  by (simp add: detail_dialog_def no_ctx_def button_handlers_def opt_list_def)

lemma controls_edit:
  "isEditing st \<Longrightarrow>
   controls no_ctx (edit_dialog st) =
     [DismissControl SetIsEditing,
      InputControl ''scientific_name'' (FieldOnChange ''scientific_name''),
      InputControl ''common_name'' (FieldOnChange ''common_name''),
      InputControl ''kingdom'' (FieldOnChange ''kingdom''),
      InputControl ''total_population'' (FieldOnChangeNumber ''total_population''),
      InputControl ''endangered'' (FieldOnChangeChecked ''endangered''),
      InputControl ''image'' (FieldOnChange ''image''),
      InputControl ''description'' (FieldOnChange ''description''),
      ButtonControl (Some SetIsEditing) (js ''Save Changes'') [HandleSubmit],
      ButtonControl (Some SetIsEditing) (js ''Cancel'') [Set SetIsEditing False]]"
  by (simp add: edit_dialog_def no_ctx_def button_handlers_def opt_list_def controls_FormField Let_def)

lemma controls_delete:
  "isDeleting st \<Longrightarrow>
   controls no_ctx (delete_dialog sp st) =
     [DismissControl SetIsDeleting,
      ButtonControl (Some SetIsDeleting) (js ''Confirm Delete'') [HandleDelete],
      ButtonControl (Some SetIsDeleting) (js ''Cancel'') [Set SetIsDeleting False]]"
  by (simp add: delete_dialog_def no_ctx_def button_handlers_def opt_list_def)

lemma controls_card:
  "controls no_ctx (SpeciesCard sp sid st) =
     controls no_ctx (detail_dialog sp sid st) @
     (if isEditing st then controls no_ctx (edit_dialog st) else []) @
     (if isDeleting st then controls no_ctx (delete_dialog sp st) else [])"
  by (simp add: SpeciesCard_def)

section \<open>What the handlers do\<close>

lemma handleSubmit_cases:
  "handleSubmit (speciesSchema e) onValid st =
     (if issues_of (speciesSchema e) (formValues (form st)) = []
      then onValid (parsed_of (speciesSchema e) (formValues (form st)))
             (st\<lparr>form := (form st)\<lparr>formErrors := Map.empty\<rparr>\<rparr>)
      else (st\<lparr>form := (form st)\<lparr>formErrors := map_of (issues_of (speciesSchema e) (formValues (form st)))\<rparr>\<rparr>, []))"
  by (simp add: handleSubmit_def zodResolver_def safeParse_def)

lemma invoke_HandleSubmit:
  "invoke e sp HandleSubmit ev st =
     (if issues_of (speciesSchema e) (formValues (form st)) = []
      then (st\<lparr>form := (form st)\<lparr>formErrors := Map.empty\<rparr>\<rparr>,
            [SupabaseUpdate (species_id sp) (parsed_of (speciesSchema e) (formValues (form st)))],
            [UpdateRequest (parsed_of (speciesSchema e) (formValues (form st)))])
      else (st\<lparr>form := (form st)\<lparr>formErrors := map_of (issues_of (speciesSchema e) (formValues (form st)))\<rparr>\<rparr>,
            [], []))"
  by (simp add: zodResolver_def safeParse_def)

text \<open>A call whose request is answered before anything else happens is one attempt.\<close>

lemma perform_invoke_resume:
  "perform e sp h ev r st =
     (case invoke e sp h ev st of
        (st1, fx, qs) \<Rightarrow>
          (case qs of
             [] \<Rightarrow> (st1, fx)
           | q # qs' \<Rightarrow> (fst (resume q r st1), fx @ snd (resume q r st1))))"
proof (cases h)
  case (Set s b)
  then show ?thesis by (cases s) simp_all
next
  case HandleDelete
  then show ?thesis by (simp add: handleDelete_def resume_def split: response.splits)
next
  case HandleSubmit
  then show ?thesis
    by (simp add: handleSubmit_cases invoke_HandleSubmit onSubmit_def resume_def del: invoke.simps
        split: response.splits)
qed simp_all

lemma invoke_sends:
  assumes "invoke e sp h ev st = (st', fx, new)"
  shows "fx = [] \<and> new = [] \<or>
         h = HandleDelete \<and> fx = [SupabaseDelete (species_id sp)] \<and> new = [DeleteRequest] \<or>
         h = HandleSubmit \<and> issues_of (speciesSchema e) (formValues (form st)) = [] \<and>
           fx = [SupabaseUpdate (species_id sp) (parsed_of (speciesSchema e) (formValues (form st)))] \<and>
           new = [UpdateRequest (parsed_of (speciesSchema e) (formValues (form st)))]"
proof (cases h)
  case (Set s b)
  with assms show ?thesis by (cases s) auto
next
  case HandleSubmit
  with assms show ?thesis
    by (auto simp: invoke_HandleSubmit simp del: invoke.simps split: if_splits)
qed (use assms in auto)

lemma invoke_formValues:
  assumes "invoke e sp h ev st = (st', fx, new)"
  shows "formValues (form st') =
     (case h of
        FieldOnChange name \<Rightarrow> (formValues (form st))(name \<mapsto> Str (target_value ev))
      | FieldOnChangeNumber name \<Rightarrow> (formValues (form st))(name \<mapsto> Num (Number_js e (target_value ev)))
      | FieldOnChangeChecked name \<Rightarrow> (formValues (form st))(name \<mapsto> Bool (target_checked ev))
      | _ \<Rightarrow> formValues (form st))"
proof (cases h)
  case (Set s b)
  with assms show ?thesis by (cases s) auto
next
  case HandleSubmit
  with assms show ?thesis
    by (auto simp: invoke_HandleSubmit simp del: invoke.simps split: if_splits)
qed (use assms in \<open>auto simp: field_onChange_def Let_def\<close>)

lemma resume_cases:
  assumes "resume q r st = (st', fx)"
  shows "(form st' = form st \<or> (\<exists>d. q = UpdateRequest d \<and> form st' = form_reset d (form st))) \<and>
         (\<forall>i d. SupabaseUpdate i d \<notin> set fx)"
  using assms by (auto simp: resume_def split: request.splits response.splits)

section \<open>The errors of the form agree with its values\<close>

lemma issue_keys_Cons:
  "fst ` set (issues_of ((k, z) # shape) obj) =
     (if \<exists>m ms. z (obj k) = Inl (m # ms) then {k} else {}) \<union> fst ` set (issues_of shape obj)"
proof (cases "z (obj k)")
  case (Inl ms)
  then show ?thesis by (cases ms) (auto simp: issues_of_Cons image_Un)
next
  case (Inr v)
  then show ?thesis by (simp add: issues_of_Cons)
qed

lemma issue_keys:
  "fst ` set (issues_of shape obj) =
     {k. \<exists>z m ms. (k, z) \<in> set shape \<and> z (obj k) = Inl (m # ms)}"
proof (induction shape)
  case Nil
  then show ?case by simp
next
  case (Cons a shape)
  obtain k z where a: "a = (k, z)" by (cases a)
  show ?case unfolding a issue_keys_Cons Cons.IH by auto
qed

lemma issue_keys_update:
  "k \<noteq> name \<Longrightarrow>
   k \<in> fst ` set (issues_of shape (obj(name \<mapsto> v))) \<longleftrightarrow> k \<in> fst ` set (issues_of shape obj)"
  by (simp add: issue_keys)

lemma field_onChange_consistent:
  assumes I: "dom (formErrors f) \<subseteq> fst ` set (issues_of shape (formValues f))"
  shows "dom (formErrors (field_onChange shape name v f)) \<subseteq>
         fst ` set (issues_of shape (formValues (field_onChange shape name v f)))"
proof
  fix k
  let ?vals = "(formValues f)(name \<mapsto> v)"
  assume k: "k \<in> dom (formErrors (field_onChange shape name v f))"
  show "k \<in> fst ` set (issues_of shape (formValues (field_onChange shape name v f)))"
  proof (cases "k = name")
    case True
    with k have "issues_of shape ?vals \<noteq> []" and "k \<in> dom (map_of (issues_of shape ?vals))"
      by (auto simp: field_onChange_def Let_def zodResolver_def safeParse_def split: if_splits)
    then show ?thesis by (simp add: field_onChange_def Let_def dom_map_of_conv_image_fst)
  next
    case False
    with k have "k \<in> dom (formErrors f)"
      by (auto simp: field_onChange_def Let_def split: if_splits)
    with I have "k \<in> fst ` set (issues_of shape (formValues f))" by blast
    with False show ?thesis by (simp add: field_onChange_def Let_def issue_keys_update)
  qed
qed

section \<open>The paragraphs of the card\<close>

lemma paragraphs_Element:
  "paragraphs (Element tag ps cs) =
     (if tag = ''p'' then [text_of cs] else []) @ concat (map paragraphs cs)"
  unfolding paragraphs_def by (simp add: filter_concat map_concat comp_def)

lemma paragraphs_Child [simp]: "paragraphs (Child v) = []"
  by (simp add: paragraphs_def)

lemma paragraphs_str [simp]: "paragraphs (str s) = []"
  by (simp add: str_def)

lemma paragraphs_and_bool [simp]:
  "paragraphs (and_bool b n) = (if b then paragraphs n else [])"
  by (simp add: and_bool_def)

lemma paragraphs_image [simp]:
  "paragraphs (and_str v (\<lambda>src. Element ''div'' [] [Element ''Image'' (ps src) []])) = []"
  by (simp add: and_str_def paragraphs_Element split: option.splits)

lemma length_js [simp]: "length (js s) = length s"
  by (simp add: js_def)

lemma text_of_nullable [simp]:
  "text_of (Child (nullable_str v) # cs) = (case v of None \<Rightarrow> [] | Some s \<Rightarrow> s) @ text_of cs"
  "text_of (Child (nullable_num w) # cs) = text_of cs"
  by (simp_all add: nullable_str_def nullable_num_def split: option.splits)

lemma paragraphs_detail:
  "paragraphs (detail_dialog sp sid st) =
     [js '' '',
      js '' '' @ (case kingdom sp of None \<Rightarrow> [] | Some k \<Rightarrow> k),
      js '' '' @ js '' '' @ js (if endangered sp then ''Yes'' else ''No'') @ js '' '',
      (case description sp of None \<Rightarrow> [] | Some d \<Rightarrow> d)]"
  by (simp add: detail_dialog_def paragraphs_Element)

section \<open>The handlers of the card\<close>

lemma concat_concat_map: "concat (concat (map f xs)) = concat (map (\<lambda>x. concat (f x)) xs)"
  by (induction xs) simp_all

lemma attached_Element:
  "attached (Element tag ps cs) = concat (map prop_handlers ps) @ concat (map attached cs)"
  unfolding attached_def by (simp add: node_handlers_def map_concat comp_def concat_concat_map)

lemma attached_Child [simp]: "attached (Child v) = []"
  by (simp add: attached_def node_handlers_def)

lemma attached_str [simp]: "attached (str s) = []"
  by (simp add: str_def)

lemma attached_and_bool [simp]: "attached (and_bool b n) = (if b then attached n else [])"
  by (simp add: and_bool_def)

lemma attached_image [simp]:
  "attached (and_str v (\<lambda>src. Element ''div'' [] [Element ''Image'' [Src src, Alt a] []])) = []"
  by (simp add: and_str_def attached_Element split: option.splits)

lemma attached_FormField [simp]:
  "attached (FormField f name label tag props) = concat (map prop_handlers props)"
  by (cases "formErrors f name") (simp_all add: FormField_def FormMessage_def attached_Element)

lemma attached_detail:
  "attached (detail_dialog sp sid st) =
     [Set SetOpen True, Set SetOpen False] @
     (if author sp = sid then [Set SetIsEditing True, Set SetIsDeleting True] else [])"
  by (simp add: detail_dialog_def attached_Element)

lemma attached_edit:
  "attached (edit_dialog st) =
     [Set SetIsEditing True, Set SetIsEditing False, HandleSubmit,
      FieldOnChange ''scientific_name'', FieldOnChange ''common_name'', FieldOnChange ''kingdom'',
      FieldOnChangeNumber ''total_population'', FieldOnChangeChecked ''endangered'',
      FieldOnChange ''image'', FieldOnChange ''description'']"
  by (simp add: edit_dialog_def attached_Element Let_def)

lemma attached_delete:
  "attached (delete_dialog sp st) = [Set SetIsDeleting True, Set SetIsDeleting False, HandleDelete]"
  by (simp add: delete_dialog_def attached_Element)

lemma attached_card:
  "attached (SpeciesCard sp sid st) =
     attached (detail_dialog sp sid st) @
     (if isEditing st then attached (edit_dialog st) else []) @
     (if isDeleting st then attached (delete_dialog sp st) else [])"
  by (simp add: SpeciesCard_def attached_Element)

lemma attached_card_subset:
  assumes "h \<in> set (attached (SpeciesCard sp sid st))"
  shows "h \<in> {Set SetOpen True, Set SetOpen False, Set SetIsEditing True, Set SetIsEditing False,
              Set SetIsDeleting True, Set SetIsDeleting False, HandleSubmit, HandleDelete,
              FieldOnChange ''scientific_name'', FieldOnChange ''common_name'',
              FieldOnChange ''kingdom'', FieldOnChangeNumber ''total_population'',
              FieldOnChangeChecked ''endangered'', FieldOnChange ''image'',
              FieldOnChange ''description''}"
  using assms
  by (auto simp: attached_card attached_detail attached_edit attached_delete split: if_splits)

section \<open>The messages of the form\<close>

lemma messages_Element:
  "messages (Element tag ps cs) =
     (if tag = ''FormMessage'' then [text_of cs] else []) @ concat (map messages cs)"
  unfolding messages_def by (simp add: filter_concat map_concat comp_def)

lemma messages_Child [simp]: "messages (Child v) = []"
  by (simp add: messages_def)

lemma messages_str [simp]: "messages (str s) = []"
  by (simp add: str_def)

lemma messages_FormMessage [simp]:
  "messages (FormMessage f name) = [case formErrors f name of None \<Rightarrow> [] | Some m \<Rightarrow> m]"
  by (simp add: FormMessage_def messages_Element split: option.splits)

lemma field_messages_Element:
  "field_messages name (Element tag ps cs) =
     (if tag = ''FormField'' \<and> Name name \<in> set ps then messages (Element tag ps cs) else []) @
     concat (map (field_messages name) cs)"
  unfolding field_messages_def
  by (simp add: props_of_def filter_concat map_concat comp_def concat_concat_map)

lemma field_messages_Child [simp]: "field_messages name (Child v) = []"
  by (simp add: field_messages_def)

lemma field_messages_str [simp]: "field_messages name (str s) = []"
  by (simp add: str_def)

lemma field_messages_and_bool [simp]:
  "field_messages name (and_bool b n) = (if b then field_messages name n else [])"
  by (simp add: and_bool_def)

lemma field_messages_image [simp]:
  "field_messages name (and_str v (\<lambda>src. Element ''div'' [] [Element ''Image'' (ps src) []])) = []"
  by (simp add: and_str_def field_messages_Element split: option.splits)

lemma field_messages_FormMessage [simp]: "field_messages name (FormMessage f name') = []"
  by (cases "formErrors f name'") (simp_all add: FormMessage_def field_messages_Element)

lemma field_messages_FormField:
  "tag = ''Input'' \<or> tag = ''Textarea'' \<Longrightarrow>
   field_messages name (FormField f name' label tag props) =
     (if name' = name then [case formErrors f name' of None \<Rightarrow> [] | Some m \<Rightarrow> m] else [])"
  by (auto simp: FormField_def field_messages_Element messages_Element)

lemma field_messages_detail: "field_messages name (detail_dialog sp sid st) = []"
  by (simp add: detail_dialog_def field_messages_Element)

lemma field_messages_delete: "field_messages name (delete_dialog sp st) = []"
  by (simp add: delete_dialog_def field_messages_Element)

lemma field_messages_edit:
  "field_messages ''scientific_name'' (edit_dialog st) =
     [case formErrors (form st) ''scientific_name'' of None \<Rightarrow> [] | Some m \<Rightarrow> m]"
  by (simp add: edit_dialog_def field_messages_Element field_messages_FormField Let_def)

lemma field_messages_card:
  "field_messages name (SpeciesCard sp sid st) =
     (if isEditing st then field_messages name (edit_dialog st) else [])"
  by (simp add: SpeciesCard_def field_messages_Element field_messages_detail field_messages_delete)

lemma elements_self: "n \<in> set (elements n)"
  by (cases n) simp_all

lemma FormMessage_in_card:
  "isEditing st \<Longrightarrow>
   FormMessage (form st) ''scientific_name'' \<in> set (elements (SpeciesCard sp sid st))"
  by (simp add: SpeciesCard_def and_bool_def edit_dialog_def FormField_def Let_def elements_self)

section \<open>Invariants of a session\<close>

text \<open>
  A property of the state and of the requests in flight that every call and every answer
  keeps holds all along a session, and so does what they promise of the effects.
\<close>

lemma calls_from_invariant:
  assumes inv: "\<And>h ev st st' fx new.
        I st \<Longrightarrow> h \<in> set (attached (SpeciesCard sp sid st)) \<Longrightarrow> invoke e sp h ev st = (st', fx, new) \<Longrightarrow>
        I st' \<and> (\<forall>x \<in> set fx. G x) \<and> (\<forall>q \<in> set new. Q q)"
    and res: "\<And>q r st st' fx.
        I st \<Longrightarrow> Q q \<Longrightarrow> resume q r st = (st', fx) \<Longrightarrow> I st' \<and> (\<forall>x \<in> set fx. G x)"
    and "I st" "\<forall>q \<in> set qs. Q q" "calls_from e sp sid cs qs st = (st', fx)"
  shows "I st' \<and> (\<forall>x \<in> set fx. G x)"
  using assms(3,4,5)
proof (induction cs arbitrary: st qs st' fx)
  case Nil
  then show ?case by simp
next
  case (Cons a cs)
  show ?case
  proof (cases a)
    case (Call h ev)
    show ?thesis
    proof (cases "h \<in> set (attached (SpeciesCard sp sid st))")
      case True
      obtain st1 fx1 new where p: "invoke e sp h ev st = (st1, fx1, new)"
        by (cases "invoke e sp h ev st")
      obtain st2 fx2 where q: "calls_from e sp sid cs (qs @ new) st1 = (st2, fx2)"
        by (cases "calls_from e sp sid cs (qs @ new) st1")
      from Cons.prems(3) Call True p q have eq: "st' = st2" "fx = fx1 @ fx2" by simp_all
      from inv [OF Cons.prems(1) True p]
      have 1: "I st1" "\<forall>x \<in> set fx1. G x" "\<forall>q \<in> set new. Q q" by simp_all
      from Cons.prems(2) 1(3) have "\<forall>q \<in> set (qs @ new). Q q" by auto
      from Cons.IH [OF 1(1) this q] have "I st2" "\<forall>x \<in> set fx2. G x" by simp_all
      with 1 eq show ?thesis by auto
    next
      case False
      with Cons.prems(3) Call have "calls_from e sp sid cs qs st = (st', fx)" by simp
      from Cons.IH [OF Cons.prems(1,2) this] show ?thesis .
    qed
  next
    case (Answer n r)
    show ?thesis
    proof (cases "n < length qs")
      case True
      obtain st1 fx1 where p: "resume (qs ! n) r st = (st1, fx1)"
        by (cases "resume (qs ! n) r st")
      obtain st2 fx2 where q: "calls_from e sp sid cs (take n qs @ drop (Suc n) qs) st1 = (st2, fx2)"
        by (cases "calls_from e sp sid cs (take n qs @ drop (Suc n) qs) st1")
      from Cons.prems(3) Answer True p q have eq: "st' = st2" "fx = fx1 @ fx2" by simp_all
      from True Cons.prems(2) have "Q (qs ! n)" by simp
      from res [OF Cons.prems(1) this p] have 1: "I st1" "\<forall>x \<in> set fx1. G x" by simp_all
      have "set (take n qs @ drop (Suc n) qs) \<subseteq> set qs"
        using set_take_subset [of n qs] set_drop_subset [of "Suc n" qs] by auto
      with Cons.prems(2) have "\<forall>q \<in> set (take n qs @ drop (Suc n) qs). Q q" by blast
      from Cons.IH [OF 1(1) this q] have "I st2" "\<forall>x \<in> set fx2. G x" by simp_all
      with 1 eq show ?thesis by auto
    next
      case False
      with Cons.prems(3) Answer have "calls_from e sp sid cs qs st = (st', fx)" by simp
      from Cons.IH [OF Cons.prems(1,2) this] show ?thesis .
    qed
  qed
qed

subsection \<open>Every update carries values that passed the schema\<close>

lemma invoke_updates_valid:
  assumes p: "invoke e sp h ev st = (st', fx, new)"
  shows "True \<and>
         (\<forall>x \<in> set fx. \<forall>i d. x = SupabaseUpdate i d \<longrightarrow>
            (\<exists>s. s \<noteq> [] \<and> d ''scientific_name'' = Some (Str s)) \<and>
            (d ''image'' = Some Null \<or> (\<exists>u. URL_parses e u \<and> d ''image'' = Some (Str u)))) \<and>
         (\<forall>q \<in> set new. True)"
proof -
  from invoke_sends [OF p] consider "fx = []"
    | "fx = [SupabaseDelete (species_id sp)]"
    | "issues_of (speciesSchema e) (formValues (form st)) = []"
      "fx = [SupabaseUpdate (species_id sp) (parsed_of (speciesSchema e) (formValues (form st)))]"
    by blast
  then show ?thesis
  proof cases
    case 3
    from parsed_scientific_name [OF 3(1)] parsed_image_any [OF 3(1)] 3(2) show ?thesis by auto
  qed simp_all
qed

lemma resume_updates_valid:
  assumes p: "resume q r st = (st', fx)"
  shows "True \<and>
         (\<forall>x \<in> set fx. \<forall>i d. x = SupabaseUpdate i d \<longrightarrow>
            (\<exists>s. s \<noteq> [] \<and> d ''scientific_name'' = Some (Str s)) \<and>
            (d ''image'' = Some Null \<or> (\<exists>u. URL_parses e u \<and> d ''image'' = Some (Str u))))"
  using resume_cases [OF p] by blast

lemma calls_from_updates_valid:
  assumes p: "calls_from e sp sid cs qs st = (st', fx)" and u: "SupabaseUpdate i d \<in> set fx"
  shows "(\<exists>s. s \<noteq> [] \<and> d ''scientific_name'' = Some (Str s)) \<and>
         (d ''image'' = Some Null \<or> (\<exists>u. URL_parses e u \<and> d ''image'' = Some (Str u)))"
proof -
  have "True \<and> (\<forall>x \<in> set fx. \<forall>i d. x = SupabaseUpdate i d \<longrightarrow>
            (\<exists>s. s \<noteq> [] \<and> d ''scientific_name'' = Some (Str s)) \<and>
            (d ''image'' = Some Null \<or> (\<exists>u. URL_parses e u \<and> d ''image'' = Some (Str u))))"
  proof (rule calls_from_invariant [where I = "\<lambda>st. True" and Q = "\<lambda>q. True"
          and G = "\<lambda>x. \<forall>i d. x = SupabaseUpdate i d \<longrightarrow>
            (\<exists>s. s \<noteq> [] \<and> d ''scientific_name'' = Some (Str s)) \<and>
            (d ''image'' = Some Null \<or> (\<exists>u. URL_parses e u \<and> d ''image'' = Some (Str u)))",
          OF _ _ TrueI _ p])
    fix h ev st st' fx new
    assume "invoke e sp h ev st = (st', fx, new)"
    then show "True \<and>
         (\<forall>x \<in> set fx. \<forall>i d. x = SupabaseUpdate i d \<longrightarrow>
            (\<exists>s. s \<noteq> [] \<and> d ''scientific_name'' = Some (Str s)) \<and>
            (d ''image'' = Some Null \<or> (\<exists>u. URL_parses e u \<and> d ''image'' = Some (Str u)))) \<and>
         (\<forall>q \<in> set new. True)"
      by (rule invoke_updates_valid)
  next
    fix q r st st' fx
    assume "resume q r st = (st', fx)"
    then show "True \<and>
         (\<forall>x \<in> set fx. \<forall>i d. x = SupabaseUpdate i d \<longrightarrow>
            (\<exists>s. s \<noteq> [] \<and> d ''scientific_name'' = Some (Str s)) \<and>
            (d ''image'' = Some Null \<or> (\<exists>u. URL_parses e u \<and> d ''image'' = Some (Str u))))"
      by (rule resume_updates_valid)
  next
    show "\<forall>q \<in> set qs. True" by simp
  qed
  then have "\<forall>x \<in> set fx. \<forall>i d. x = SupabaseUpdate i d \<longrightarrow>
            (\<exists>s. s \<noteq> [] \<and> d ''scientific_name'' = Some (Str s)) \<and>
            (d ''image'' = Some Null \<or> (\<exists>u. URL_parses e u \<and> d ''image'' = Some (Str u)))"
    by (rule conjunct2)
  from bspec [OF this u] have "(\<exists>s. s \<noteq> [] \<and> d ''scientific_name'' = Some (Str s)) \<and>
            (d ''image'' = Some Null \<or> (\<exists>u. URL_parses e u \<and> d ''image'' = Some (Str u)))"
    by simp
  then show ?thesis by simp
qed

lemma calls_updates_valid:
  assumes p: "calls e sp sid cs st = (st', fx)" and u: "SupabaseUpdate i d \<in> set fx"
  shows "(\<exists>s. s \<noteq> [] \<and> d ''scientific_name'' = Some (Str s)) \<and>
         (d ''image'' = Some Null \<or> (\<exists>u. URL_parses e u \<and> d ''image'' = Some (Str u)))"
  using calls_from_updates_valid [of e sp sid cs "[]" st st' fx i d] p u by (simp add: calls_def)

subsection \<open>The errors of the form agree with its values all along\<close>

lemma invoke_errors_consistent:
  assumes I: "dom (formErrors (form st)) \<subseteq> fst ` set (issues_of (speciesSchema e) (formValues (form st)))"
    and p: "invoke e sp h ev st = (st', fx, new)"
  shows "dom (formErrors (form st')) \<subseteq> fst ` set (issues_of (speciesSchema e) (formValues (form st'))) \<and>
         (\<forall>x \<in> set fx. True) \<and> (\<forall>q \<in> set new. True)"
proof -
  have "dom (formErrors (form st')) \<subseteq> fst ` set (issues_of (speciesSchema e) (formValues (form st')))"
  proof (cases h)
    case (Set s b)
    with p have "form st' = form st" by (cases s) auto
    with I show ?thesis by simp
  next
    case HandleDelete
    with p have "form st' = form st" by auto
    with I show ?thesis by simp
  next
    case HandleSubmit
    show ?thesis
    proof (cases "issues_of (speciesSchema e) (formValues (form st)) = []")
      case True
      with p HandleSubmit have "formErrors (form st') = Map.empty"
        by (auto simp: invoke_HandleSubmit simp del: invoke.simps)
      then show ?thesis by simp
    next
      case False
      with p HandleSubmit
      have "form st' = (form st)\<lparr>formErrors := map_of (issues_of (speciesSchema e) (formValues (form st)))\<rparr>"
        by (auto simp: invoke_HandleSubmit simp del: invoke.simps)
      then show ?thesis by (simp add: dom_map_of_conv_image_fst)
    qed
  next
    case (FieldOnChange name)
    with p have "form st' = field_onChange (speciesSchema e) name (Str (target_value ev)) (form st)"
      by auto
    with field_onChange_consistent [OF I] show ?thesis by simp
  next
    case (FieldOnChangeNumber name)
    with p have "form st' = field_onChange (speciesSchema e) name (Num (Number_js e (target_value ev))) (form st)"
      by auto
    with field_onChange_consistent [OF I] show ?thesis by simp
  next
    case (FieldOnChangeChecked name)
    with p have "form st' = field_onChange (speciesSchema e) name (Bool (target_checked ev)) (form st)"
      by auto
    with field_onChange_consistent [OF I] show ?thesis by simp
  qed
  then show ?thesis by simp
qed

lemma resume_errors_consistent:
  assumes I: "dom (formErrors (form st)) \<subseteq> fst ` set (issues_of (speciesSchema e) (formValues (form st)))"
    and p: "resume q r st = (st', fx)"
  shows "dom (formErrors (form st')) \<subseteq> fst ` set (issues_of (speciesSchema e) (formValues (form st'))) \<and>
         (\<forall>x \<in> set fx. True)"
proof -
  from resume_cases [OF p] consider "form st' = form st"
    | d where "form st' = form_reset d (form st)" by blast
  then show ?thesis
  proof cases
    case 1
    with I show ?thesis by simp
  next
    case 2
    then show ?thesis by (simp add: form_reset_def)
  qed
qed

lemma calls_errors_consistent:
  assumes p: "calls e sp sid cs (initial sp) = (st', fx)"
  shows "dom (formErrors (form st')) \<subseteq> fst ` set (issues_of (speciesSchema e) (formValues (form st')))"
proof -
  from p have p': "calls_from e sp sid cs [] (initial sp) = (st', fx)" by (simp add: calls_def)
  have "dom (formErrors (form st')) \<subseteq> fst ` set (issues_of (speciesSchema e) (formValues (form st'))) \<and>
        (\<forall>x \<in> set fx. True)"
  proof (rule calls_from_invariant [where I = "\<lambda>st. dom (formErrors (form st)) \<subseteq> fst ` set (issues_of (speciesSchema e) (formValues (form st)))"
          and Q = "\<lambda>q. True" and G = "\<lambda>x. True", OF _ _ _ _ p'])
    fix h ev st st' fx new
    assume "dom (formErrors (form st)) \<subseteq> fst ` set (issues_of (speciesSchema e) (formValues (form st)))"
      and "invoke e sp h ev st = (st', fx, new)"
    then show "dom (formErrors (form st')) \<subseteq> fst ` set (issues_of (speciesSchema e) (formValues (form st'))) \<and>
         (\<forall>x \<in> set fx. True) \<and> (\<forall>q \<in> set new. True)"
      by (rule invoke_errors_consistent)
  next
    fix q r st st' fx
    assume "dom (formErrors (form st)) \<subseteq> fst ` set (issues_of (speciesSchema e) (formValues (form st)))"
      and "resume q r st = (st', fx)"
    then show "dom (formErrors (form st')) \<subseteq> fst ` set (issues_of (speciesSchema e) (formValues (form st'))) \<and>
         (\<forall>x \<in> set fx. True)"
      by (rule resume_errors_consistent)
  next
    show "dom (formErrors (form (initial sp))) \<subseteq>
          fst ` set (issues_of (speciesSchema e) (formValues (form (initial sp))))"
      by (simp add: initial_def useForm_def)
  next
    show "\<forall>q \<in> set []. True" by simp
  qed
  then show ?thesis by simp
qed

lemma reachable_valid_no_errors:
  assumes p: "calls e sp sid cs (initial sp) = (st, fx)"
    and v: "issues_of (speciesSchema e) (formValues (form st)) = []"
  shows "st\<lparr>form := (form st)\<lparr>formErrors := Map.empty\<rparr>\<rparr> = st"
proof -
  from calls_errors_consistent [OF p] v have "formErrors (form st) = Map.empty" by simp
  then show ?thesis by simp
qed

subsection \<open>A field keeps the type of its value\<close>

text \<open>
  Once the total population of the form is a number it stays one, and the updates sent
  carry a number, as long as no update in flight carries anything else: the answer to an
  update resets the form to the data of that update.
\<close>

lemma invoke_total_population:
  assumes I: "\<exists>n. formValues (form st) ''total_population'' = Some (Num n)"
    and a: "h \<in> set (attached (SpeciesCard sp sid st))"
    and p: "invoke e sp h ev st = (st', fx, new)"
  shows "(\<exists>n. formValues (form st') ''total_population'' = Some (Num n)) \<and>
         (\<forall>x \<in> set fx. \<forall>i d. x = SupabaseUpdate i d \<longrightarrow> (\<exists>n. d ''total_population'' = Some (Num n))) \<and>
         (\<forall>q \<in> set new. \<forall>d. q = UpdateRequest d \<longrightarrow> (\<exists>n. d ''total_population'' = Some (Num n)))"
proof -
  from I obtain n where n: "formValues (form st) ''total_population'' = Some (Num n)" by blast
  from attached_card_subset [OF a]
  have h: "h \<noteq> FieldOnChange ''total_population''" "h \<noteq> FieldOnChangeChecked ''total_population''"
    by auto
  have 1: "\<exists>n. formValues (form st') ''total_population'' = Some (Num n)"
    using invoke_formValues [OF p] h n by (cases h) auto
  from invoke_sends [OF p] consider "fx = []" "new = []"
    | "fx = [SupabaseDelete (species_id sp)]" "new = [DeleteRequest]"
    | "issues_of (speciesSchema e) (formValues (form st)) = []"
      "fx = [SupabaseUpdate (species_id sp) (parsed_of (speciesSchema e) (formValues (form st)))]"
      "new = [UpdateRequest (parsed_of (speciesSchema e) (formValues (form st)))]"
    by blast
  then show ?thesis
  proof cases
    case 3
    from parsed_total_population [OF 3(1) n] 1 3(2,3) show ?thesis by simp
  qed (use 1 in simp_all)
qed

lemma resume_total_population:
  assumes I: "\<exists>n. formValues (form st) ''total_population'' = Some (Num n)"
    and Q: "\<forall>d. q = UpdateRequest d \<longrightarrow> (\<exists>n. d ''total_population'' = Some (Num n))"
    and p: "resume q r st = (st', fx)"
  shows "(\<exists>n. formValues (form st') ''total_population'' = Some (Num n)) \<and>
         (\<forall>x \<in> set fx. \<forall>i d. x = SupabaseUpdate i d \<longrightarrow> (\<exists>n. d ''total_population'' = Some (Num n)))"
proof -
  from resume_cases [OF p] have fx: "\<forall>i d. SupabaseUpdate i d \<notin> set fx" by simp
  from resume_cases [OF p] consider "form st' = form st"
    | d where "q = UpdateRequest d" "form st' = form_reset d (form st)" by blast
  then have "\<exists>n. formValues (form st') ''total_population'' = Some (Num n)"
  proof cases
    case 1
    with I show ?thesis by simp
  next
    case 2
    with Q show ?thesis by (simp add: form_reset_def)
  qed
  with fx show ?thesis by blast
qed

lemma calls_from_total_population:
  assumes I: "\<exists>n. formValues (form st) ''total_population'' = Some (Num n)"
    and Q: "\<forall>q \<in> set qs. \<forall>d. q = UpdateRequest d \<longrightarrow> (\<exists>n. d ''total_population'' = Some (Num n))"
    and p: "calls_from e sp sid cs qs st = (st', fx)"
  shows "(\<exists>n. formValues (form st') ''total_population'' = Some (Num n)) \<and>
         (\<forall>x \<in> set fx. \<forall>i d. x = SupabaseUpdate i d \<longrightarrow> (\<exists>n. d ''total_population'' = Some (Num n)))"
  by (rule calls_from_invariant [where I = "\<lambda>st. \<exists>n. formValues (form st) ''total_population'' = Some (Num n)"
        and Q = "\<lambda>q. \<forall>d. q = UpdateRequest d \<longrightarrow> (\<exists>n. d ''total_population'' = Some (Num n))",
        OF invoke_total_population resume_total_population I Q p])

text \<open>The same for the image, which is then a string, and in an update one that is a URL.\<close>

lemma invoke_image:
  assumes I: "\<exists>s. formValues (form st) ''image'' = Some (Str s)"
    and a: "h \<in> set (attached (SpeciesCard sp sid st))"
    and p: "invoke e sp h ev st = (st', fx, new)"
  shows "(\<exists>s. formValues (form st') ''image'' = Some (Str s)) \<and>
         (\<forall>x \<in> set fx. \<forall>i d. x = SupabaseUpdate i d \<longrightarrow>
            (\<exists>s. URL_parses e s \<and> d ''image'' = Some (Str s))) \<and>
         (\<forall>q \<in> set new. \<forall>d. q = UpdateRequest d \<longrightarrow> (\<exists>s. d ''image'' = Some (Str s)))"
proof -
  from I obtain s where s: "formValues (form st) ''image'' = Some (Str s)" by blast
  from attached_card_subset [OF a]
  have h: "h \<noteq> FieldOnChangeNumber ''image''" "h \<noteq> FieldOnChangeChecked ''image''"
    by auto
  have 1: "\<exists>s. formValues (form st') ''image'' = Some (Str s)"
    using invoke_formValues [OF p] h s by (cases h) auto
  from invoke_sends [OF p] consider "fx = []" "new = []"
    | "fx = [SupabaseDelete (species_id sp)]" "new = [DeleteRequest]"
    | "issues_of (speciesSchema e) (formValues (form st)) = []"
      "fx = [SupabaseUpdate (species_id sp) (parsed_of (speciesSchema e) (formValues (form st)))]"
      "new = [UpdateRequest (parsed_of (speciesSchema e) (formValues (form st)))]"
    by blast
  then show ?thesis
  proof cases
    case 3
    from parsed_image [OF 3(1) s] 1 3(2,3) show ?thesis by simp
  qed (use 1 in simp_all)
qed

lemma resume_image:
  assumes I: "\<exists>s. formValues (form st) ''image'' = Some (Str s)"
    and Q: "\<forall>d. q = UpdateRequest d \<longrightarrow> (\<exists>s. d ''image'' = Some (Str s))"
    and p: "resume q r st = (st', fx)"
  shows "(\<exists>s. formValues (form st') ''image'' = Some (Str s)) \<and>
         (\<forall>x \<in> set fx. \<forall>i d. x = SupabaseUpdate i d \<longrightarrow>
            (\<exists>s. URL_parses e s \<and> d ''image'' = Some (Str s)))"
proof -
  from resume_cases [OF p] have fx: "\<forall>i d. SupabaseUpdate i d \<notin> set fx" by simp
  from resume_cases [OF p] consider "form st' = form st"
    | d where "q = UpdateRequest d" "form st' = form_reset d (form st)" by blast
  then have "\<exists>s. formValues (form st') ''image'' = Some (Str s)"
  proof cases
    case 1
    with I show ?thesis by simp
  next
    case 2
    with Q show ?thesis by (simp add: form_reset_def)
  qed
  with fx show ?thesis by blast
qed

lemma calls_from_image:
  assumes I: "\<exists>s. formValues (form st) ''image'' = Some (Str s)"
    and Q: "\<forall>q \<in> set qs. \<forall>d. q = UpdateRequest d \<longrightarrow> (\<exists>s. d ''image'' = Some (Str s))"
    and p: "calls_from e sp sid cs qs st = (st', fx)"
  shows "(\<exists>s. formValues (form st') ''image'' = Some (Str s)) \<and>
         (\<forall>x \<in> set fx. \<forall>i d. x = SupabaseUpdate i d \<longrightarrow>
            (\<exists>s. URL_parses e s \<and> d ''image'' = Some (Str s)))"
  by (rule calls_from_invariant [where I = "\<lambda>st. \<exists>s. formValues (form st) ''image'' = Some (Str s)"
        and Q = "\<lambda>q. \<forall>d. q = UpdateRequest d \<longrightarrow> (\<exists>s. d ''image'' = Some (Str s))",
        OF invoke_image resume_image I Q p])

section \<open>Events on the controls\<close>

lemma perform_all_single [simp]: "perform_all e sp [h] ev r st = perform e sp h ev r st"
  by (simp split: prod.splits)

lemma step_save_changes:
  "isEditing st \<Longrightarrow>
   step e sp sid (Click (Some SetIsEditing) (js ''Save Changes'')) r st =
     handleSubmit (speciesSchema e) (\<lambda>data. onSubmit sp data r) st"
  by (simp add: step_def controls_card controls_detail controls_edit dom_event_of_def)

lemma step_cancel_edit:
  "isEditing st \<Longrightarrow>
   step e sp sid (Click (Some SetIsEditing) (js ''Cancel'')) r st = (st\<lparr>isEditing := False\<rparr>, [])"
  by (simp add: step_def controls_card controls_detail controls_edit dom_event_of_def)

lemma step_confirm_delete:
  "isDeleting st \<Longrightarrow>
   step e sp sid (Click (Some SetIsDeleting) (js ''Confirm Delete'')) r st = handleDelete sp r st"
  by (simp add: step_def controls_card controls_detail controls_edit controls_delete dom_event_of_def)

lemma step_cancel_delete:
  "isDeleting st \<Longrightarrow>
   step e sp sid (Click (Some SetIsDeleting) (js ''Cancel'')) r st = (st\<lparr>isDeleting := False\<rparr>, [])"
  by (simp add: step_def controls_card controls_detail controls_edit controls_delete dom_event_of_def)

lemma step_dismiss_delete:
  "isDeleting st \<Longrightarrow>
   step e sp sid (Dismiss SetIsDeleting) r st = (st\<lparr>isDeleting := False\<rparr>, [])"
  by (simp add: step_def controls_card controls_detail controls_edit controls_delete dom_event_of_def)

lemma step_change_total_population:
  "isEditing st \<Longrightarrow>
   step e sp sid (Change ''total_population'' ev) r st =
     perform e sp (FieldOnChangeNumber ''total_population'') ev r st"
  by (simp add: step_def controls_card controls_detail controls_edit dom_event_of_def)

lemma step_change_image:
  "isEditing st \<Longrightarrow>
   step e sp sid (Change ''image'' ev) r st = perform e sp (FieldOnChange ''image'') ev r st"
  by (simp add: step_def controls_card controls_detail controls_edit dom_event_of_def)

text \<open>An event on a control is one call of a handler of the tree, or nothing.\<close>

lemma handlers_of_cases:
  "handlers_of cs ev = [] \<or>
   (\<exists>d l hs. ButtonControl d l hs \<in> set cs \<and> handlers_of cs ev = hs) \<or>
   (\<exists>n h. InputControl n h \<in> set cs \<and> handlers_of cs ev = [h]) \<or>
   (\<exists>s. DismissControl s \<in> set cs \<and> handlers_of cs ev = [Set s False])"
  by (induction cs ev rule: handlers_of.induct) auto

lemma detail_controls_attached:
  assumes "c \<in> set (controls no_ctx (detail_dialog sp sid st))"
  shows "(\<exists>d l h. c = ButtonControl d l [h] \<and> h \<in> set (attached (detail_dialog sp sid st))) \<or>
         (\<exists>s. c = DismissControl s \<and> Set s False \<in> set (attached (detail_dialog sp sid st)))"
  using assms by (cases "open_flag st"; cases "author sp = sid") (auto simp: controls_detail attached_detail)

lemma edit_controls_attached:
  assumes "isEditing st" "c \<in> set (controls no_ctx (edit_dialog st))"
  shows "(\<exists>d l h. c = ButtonControl d l [h] \<and> h \<in> set (attached (edit_dialog st))) \<or>
         (\<exists>n h. c = InputControl n h \<and> h \<in> set (attached (edit_dialog st))) \<or>
         (\<exists>s. c = DismissControl s \<and> Set s False \<in> set (attached (edit_dialog st)))"
proof -
  from assms have "c \<in> set
     [DismissControl SetIsEditing,
      InputControl ''scientific_name'' (FieldOnChange ''scientific_name''),
      InputControl ''common_name'' (FieldOnChange ''common_name''),
      InputControl ''kingdom'' (FieldOnChange ''kingdom''),
      InputControl ''total_population'' (FieldOnChangeNumber ''total_population''),
      InputControl ''endangered'' (FieldOnChangeChecked ''endangered''),
      InputControl ''image'' (FieldOnChange ''image''),
      InputControl ''description'' (FieldOnChange ''description''),
      ButtonControl (Some SetIsEditing) (js ''Save Changes'') [HandleSubmit],
      ButtonControl (Some SetIsEditing) (js ''Cancel'') [Set SetIsEditing False]]"
    by (simp only: controls_edit)
  then have "c = DismissControl SetIsEditing \<or>
      c = InputControl ''scientific_name'' (FieldOnChange ''scientific_name'') \<or>
      c = InputControl ''common_name'' (FieldOnChange ''common_name'') \<or>
      c = InputControl ''kingdom'' (FieldOnChange ''kingdom'') \<or>
      c = InputControl ''total_population'' (FieldOnChangeNumber ''total_population'') \<or>
      c = InputControl ''endangered'' (FieldOnChangeChecked ''endangered'') \<or>
      c = InputControl ''image'' (FieldOnChange ''image'') \<or>
      c = InputControl ''description'' (FieldOnChange ''description'') \<or>
      c = ButtonControl (Some SetIsEditing) (js ''Save Changes'') [HandleSubmit] \<or>
      c = ButtonControl (Some SetIsEditing) (js ''Cancel'') [Set SetIsEditing False]"
    by (simp only: set_simps insert_iff empty_iff simp_thms)
  then show ?thesis
    by (elim disjE) (simp_all add: attached_edit)
qed

lemma delete_controls_attached:
  assumes "isDeleting st" "c \<in> set (controls no_ctx (delete_dialog sp st))"
  shows "(\<exists>d l h. c = ButtonControl d l [h] \<and> h \<in> set (attached (delete_dialog sp st))) \<or>
         (\<exists>s. c = DismissControl s \<and> Set s False \<in> set (attached (delete_dialog sp st)))"
  using assms by (auto simp: controls_delete attached_delete)

lemma card_controls_attached:
  assumes "c \<in> set (controls no_ctx (SpeciesCard sp sid st))"
  shows "(\<exists>d l h. c = ButtonControl d l [h] \<and> h \<in> set (attached (SpeciesCard sp sid st))) \<or>
         (\<exists>n h. c = InputControl n h \<and> h \<in> set (attached (SpeciesCard sp sid st))) \<or>
         (\<exists>s. c = DismissControl s \<and> Set s False \<in> set (attached (SpeciesCard sp sid st)))"
proof -
  from assms consider
    "c \<in> set (controls no_ctx (detail_dialog sp sid st))"
    | "isEditing st" "c \<in> set (controls no_ctx (edit_dialog st))"
    | "isDeleting st" "c \<in> set (controls no_ctx (delete_dialog sp st))"
    by (auto simp: controls_card split: if_splits)
  then show ?thesis
  proof cases
    case 1
    from detail_controls_attached [OF 1] show ?thesis
      unfolding attached_card by auto
  next
    case 2
    from edit_controls_attached [OF 2] 2(1) show ?thesis
      unfolding attached_card by auto
  next
    case 3
    from delete_controls_attached [OF 3] 3(1) show ?thesis
      unfolding attached_card by auto
  qed
qed

lemma handlers_of_card:
  "handlers_of (controls no_ctx (SpeciesCard sp sid st)) ev = [] \<or>
   (\<exists>h. h \<in> set (attached (SpeciesCard sp sid st)) \<and>
        handlers_of (controls no_ctx (SpeciesCard sp sid st)) ev = [h])"
proof -
  let ?cs = "controls no_ctx (SpeciesCard sp sid st)"
  from handlers_of_cases [of ?cs ev] consider
    "handlers_of ?cs ev = []"
    | d l hs where "ButtonControl d l hs \<in> set ?cs" "handlers_of ?cs ev = hs"
    | n h where "InputControl n h \<in> set ?cs" "handlers_of ?cs ev = [h]"
    | s where "DismissControl s \<in> set ?cs" "handlers_of ?cs ev = [Set s False]"
    by blast
  then show ?thesis
  proof cases
    case 1
    then show ?thesis by simp
  next
    case 2
    from card_controls_attached [OF 2(1)] 2(2) show ?thesis by auto
  next
    case 3
    from card_controls_attached [OF 3(1)] 3(2) show ?thesis by auto
  next
    case 4
    from card_controls_attached [OF 4(1)] 4(2) show ?thesis by auto
  qed
qed

text \<open>
  An event on a control, with the answer to the request it may send arriving before
  anything else happens, is a session of one call and one answer.
\<close>

lemma calls_call_answer:
  assumes "h \<in> set (attached (SpeciesCard sp sid st))"
  shows "calls e sp sid [Call h ev, Answer 0 r] st = perform e sp h ev r st"
proof -
  obtain st1 fx new where p: "invoke e sp h ev st = (st1, fx, new)"
    by (cases "invoke e sp h ev st")
  from invoke_sends [OF p] consider "new = []" | q where "new = [q]" by blast
  then show ?thesis
  proof cases
    case 1
    with assms p show ?thesis by (simp add: calls_def perform_invoke_resume)
  next
    case 2
    with assms p show ?thesis
      by (simp add: calls_def perform_invoke_resume split: prod.splits)
  qed
qed

lemma step_is_calls:
  "step e sp sid ev r st = (st, []) \<or>
   (\<exists>h. step e sp sid ev r st = calls e sp sid [Call h (dom_event_of ev), Answer 0 r] st)"
proof -
  from handlers_of_card [of sp sid st ev] consider
    "handlers_of (controls no_ctx (SpeciesCard sp sid st)) ev = []"
    | h where "h \<in> set (attached (SpeciesCard sp sid st))"
        "handlers_of (controls no_ctx (SpeciesCard sp sid st)) ev = [h]"
    by blast
  then show ?thesis
  proof cases
    case 1
    then show ?thesis by (simp add: step_def)
  next
    case 2
    then have "step e sp sid ev r st = calls e sp sid [Call h (dom_event_of ev), Answer 0 r] st"
      by (simp add: step_def calls_call_answer)
    then show ?thesis by blast
  qed
qed

section \<open>The sample inputs, evaluated\<close>

lemma sample_valid:
  "issues_of (speciesSchema sample_env) (defaultValues lion) = []"
  by (simp add: speciesSchema_def issues_of_Cons defaultValues_def lion_def z_min_def z_string_def
      z_nullable_def z_number_def z_url_def z_default_def z_boolean_def nullable_str_def nullable_num_def)

lemma lion_dialogs_flags [simp]:
  "open_flag lion_dialogs" "isEditing lion_dialogs" "isDeleting lion_dialogs"
  "isEditing lion_blank_name" "isEditing lion_bad_image"
  by (simp_all add: lion_dialogs_def lion_blank_name_def lion_bad_image_def)

lemma sample_not_a_url: "\<not> URL_parses sample_env (js ''not a url'')"
  by (simp add: URL_parses_def js_def is_c0_or_space_def is_tab_or_newline_def is_ascii_alpha_def
      is_scheme_char_def)

lemma sample_session:
  "calls sample_env lion (js ''user-1'') open_then_edit (initial lion) =
     ((initial lion)\<lparr>open_flag := True, isEditing := True\<rparr>, [])"
  by (simp add: open_then_edit_def calls_def attached_card attached_detail initial_def lion_def)

lemma take_long_text:
  "take 150 long_text =
     [0x0009, 0x0020] @ js ''Panthera leo'' @ ([0x00A0, 0x000A] @ replicate 134 0x0020)"
  by (simp add: long_text_def)

lemma sample_padded_42: "js_trim (js '' 42 '') = js ''42''"
proof -
  have "js_trim ([0x0020] @ js ''42'' @ [0x0020]) = js ''42''"
    by (rule js_trim_unique) (simp_all add: is_white_space_def js_def)
  then show ?thesis by (simp add: js_def)
qed

lemma sample_forty_two: "Number_js sample_env (js '' 42 '') = Finite 42"
  by (simp add: Number_js_def sample_padded_42) (simp add: sample_env_def decimal_def js_def)

lemmas schema_eval =
  speciesSchema_def issues_of_Cons parsed_of_Cons defaultValues_def lion_def z_min_def z_string_def
  z_nullable_def z_number_def z_url_def z_default_def z_boolean_def nullable_str_def nullable_num_def

lemma sample_data:
  "parsed_of (speciesSchema sample_env) (defaultValues lion) ''total_population'' = Some Null"
  "parsed_of (speciesSchema sample_env) (defaultValues lion) ''image'' = Some Null"
  by (simp_all add: schema_eval)

lemma sample_data_valid:
  "issues_of (speciesSchema sample_env) (parsed_of (speciesSchema sample_env) (defaultValues lion)) = []"
  by (simp add: schema_eval)

lemma sample_data_again:
  "parsed_of (speciesSchema sample_env) (parsed_of (speciesSchema sample_env) (defaultValues lion)) ''total_population'' = Some Null"
  "parsed_of (speciesSchema sample_env) (parsed_of (speciesSchema sample_env) (defaultValues lion)) ''image'' = Some Null"
  by (simp_all add: schema_eval)

lemma author_lion [simp]: "author lion = js ''user-1''" "species_id lion = 7"
  by (simp_all add: lion_def)

lemma sample_padded: "js_trim (js ''  A big cat.  '') = js ''A big cat.''"
proof -
  have "js_trim ([0x0020, 0x0020] @ js ''A big cat.'' @ [0x0020, 0x0020]) = js ''A big cat.''"
    by (rule js_trim_unique) (simp_all add: is_white_space_def js_def)
  then show ?thesis by (simp add: js_def)
qed

lemma sample_long_text: "js_trim (take 150 long_text) = js ''Panthera leo''"
  unfolding take_long_text
  by (rule js_trim_unique) (simp_all add: is_white_space_def js_def)

lemmas session_eval =
  save_edit_answer_save_def calls_def attached_card attached_detail attached_edit attached_delete
  invoke_HandleSubmit sample_valid sample_data_valid resume_def cleared_def initial_def useForm_def
  form_reset_def field_onChange_def Let_def

section \<open>The claims\<close>

text \<open>
  C1. For a row whose description is longer than 150 code units, the paragraph of the card
  is the first 150 code units of the description, trimmed, followed by \<open>...\<close>, whoever
  looks at the card and whatever the state of its dialogs. Trimmed: the first 150 code
  units are white space, then the text shown, then white space, and the text shown
  neither starts nor ends with white space.
\<close>

theorem card_truncates_long_description:
  assumes "description sp = Some d" and "150 < length d"
  shows "\<exists>l t r. take 150 d = l @ t @ r \<and>
           (\<forall>c \<in> set l. is_white_space c) \<and> (\<forall>c \<in> set r. is_white_space c) \<and>
           (t = [] \<or> \<not> is_white_space (hd t) \<and> \<not> is_white_space (last t)) \<and>
           card_paragraphs (SpeciesCard sp sessionId st) = [t @ js ''...'']"
proof -
  from assms have "d \<noteq> []" by auto
  with assms have "card_description sp = js_trim (take 150 d) @ js ''...''"
    by (simp add: card_description_def js_slice_0)
  then have c: "card_paragraphs (SpeciesCard sp sessionId st) = [js_trim (take 150 d) @ js ''...'']"
    by (simp add: card_paragraphs_def SpeciesCard_def)
  from js_trim_decomposition [of "take 150 d"] obtain l r where
    d: "take 150 d = l @ js_trim (take 150 d) @ r"
      "\<forall>c \<in> set l. is_white_space c" "\<forall>c \<in> set r. is_white_space c" by blast
  from js_trim_ends [of "take 150 d"]
  have "js_trim (take 150 d) = [] \<or>
        \<not> is_white_space (hd (js_trim (take 150 d))) \<and> \<not> is_white_space (last (js_trim (take 150 d)))"
    by blast
  with c d show ?thesis by blast
qed

theorem card_truncates_long_description_witness:
  "card_paragraphs (SpeciesCard (lion\<lparr>description := Some long_text\<rparr>) (js ''user-2'') (initial lion)) =
     [js ''Panthera leo...'']"
proof -
  have len: "150 < length long_text" by (simp add: long_text_def)
  from card_truncates_long_description [of "lion\<lparr>description := Some long_text\<rparr>" long_text
      "js ''user-2''" "initial lion"] len
  obtain l t r where d: "take 150 long_text = l @ t @ r"
    and l: "\<forall>c \<in> set l. is_white_space c" and r: "\<forall>c \<in> set r. is_white_space c"
    and t: "t = [] \<or> \<not> is_white_space (hd t) \<and> \<not> is_white_space (last t)"
    and c: "card_paragraphs (SpeciesCard (lion\<lparr>description := Some long_text\<rparr>) (js ''user-2'') (initial lion)) =
              [t @ js ''...'']"
    by auto
  from js_trim_unique [OF l r t] d have "t = js_trim (take 150 long_text)" by simp
  then have "t = js ''Panthera leo''" by (simp only: sample_long_text)
  with c show ?thesis by (simp add: js_def)
qed

text \<open>
  C7. For a row whose description has at most 150 code units, the description paragraph
  of the detail view, its last paragraph, is the whole description, neither cut nor
  trimmed. (By \<open>paragraphs_detail\<close> the same holds for a description of any length.)
\<close>

theorem detail_shows_full_description:
  assumes "description sp = Some d" and "length d \<le> 150"
  shows "last (paragraphs (detail_dialog sp sessionId st)) = d"
  using assms by (simp add: paragraphs_detail)

theorem detail_shows_full_description_witness:
  "last (paragraphs (detail_dialog lion (js ''user-2'') (initial lion))) = js ''  A big cat.  ''"
  using detail_shows_full_description [of lion "js ''  A big cat.  ''" "js ''user-2''" "initial lion"]
  by (simp add: lion_def)

text \<open>
  C8. For a description that is neither \<open>null\<close> nor empty the paragraph of the card is
  the trimmed first 150 code units followed by \<open>...\<close>, so for one of at most 150 code
  units it is the whole description, trimmed, followed by \<open>...\<close>; for a description that
  is \<open>null\<close> or empty the paragraph is the empty string. Trimmed as in C1: the text shown
  has white space before and after it in what it is cut from, and none at its ends.
\<close>

theorem card_ellipsis_on_every_description:
  "(\<forall>d. description sp = Some d \<longrightarrow> d \<noteq> [] \<longrightarrow>
       (\<exists>l t r. take 150 d = l @ t @ r \<and>
          (\<forall>c \<in> set l. is_white_space c) \<and> (\<forall>c \<in> set r. is_white_space c) \<and>
          (t = [] \<or> \<not> is_white_space (hd t) \<and> \<not> is_white_space (last t)) \<and>
          card_paragraphs (SpeciesCard sp sessionId st) = [t @ js ''...'']) \<and>
       (length d \<le> 150 \<longrightarrow>
          (\<exists>l t r. d = l @ t @ r \<and>
             (\<forall>c \<in> set l. is_white_space c) \<and> (\<forall>c \<in> set r. is_white_space c) \<and>
             (t = [] \<or> \<not> is_white_space (hd t) \<and> \<not> is_white_space (last t)) \<and>
             card_paragraphs (SpeciesCard sp sessionId st) = [t @ js ''...'']))) \<and>
   (description sp = None \<or> description sp = Some [] \<longrightarrow>
       card_paragraphs (SpeciesCard sp sessionId st) = [[]])"
proof (intro conjI allI impI)
  fix d
  assume a: "description sp = Some d" "d \<noteq> []"
  then have c: "card_paragraphs (SpeciesCard sp sessionId st) = [js_trim (take 150 d) @ js ''...'']"
    by (simp add: card_paragraphs_def SpeciesCard_def card_description_def js_slice_0)
  from js_trim_decomposition [of "take 150 d"] obtain l r where
    d: "take 150 d = l @ js_trim (take 150 d) @ r"
      "\<forall>c \<in> set l. is_white_space c" "\<forall>c \<in> set r. is_white_space c" by blast
  from js_trim_ends [of "take 150 d"]
  have e: "js_trim (take 150 d) = [] \<or>
        \<not> is_white_space (hd (js_trim (take 150 d))) \<and> \<not> is_white_space (last (js_trim (take 150 d)))"
    by blast
  from c d e show "\<exists>l t r. take 150 d = l @ t @ r \<and>
          (\<forall>c \<in> set l. is_white_space c) \<and> (\<forall>c \<in> set r. is_white_space c) \<and>
          (t = [] \<or> \<not> is_white_space (hd t) \<and> \<not> is_white_space (last t)) \<and>
          card_paragraphs (SpeciesCard sp sessionId st) = [t @ js ''...'']"
    by blast
  assume "length d \<le> 150"
  then have "take 150 d = d" by simp
  with c d e show "\<exists>l t r. d = l @ t @ r \<and>
          (\<forall>c \<in> set l. is_white_space c) \<and> (\<forall>c \<in> set r. is_white_space c) \<and>
          (t = [] \<or> \<not> is_white_space (hd t) \<and> \<not> is_white_space (last t)) \<and>
          card_paragraphs (SpeciesCard sp sessionId st) = [t @ js ''...'']"
    by metis
next
  assume "description sp = None \<or> description sp = Some []"
  then show "card_paragraphs (SpeciesCard sp sessionId st) = [[]]"
    by (auto simp: card_paragraphs_def SpeciesCard_def card_description_def)
qed

theorem card_ellipsis_on_every_description_witness:
  "card_paragraphs (SpeciesCard lion (js ''user-2'') (initial lion)) = [js ''A big cat....''] \<and>
   card_paragraphs (SpeciesCard (lion\<lparr>description := None\<rparr>) (js ''user-2'') (initial lion)) = [[]] \<and>
   card_paragraphs (SpeciesCard (lion\<lparr>description := Some []\<rparr>) (js ''user-2'') (initial lion)) = [[]]"
proof -
  have dl: "description lion = Some (js ''  A big cat.  '')" by (simp add: lion_def)
  have ne: "js ''  A big cat.  '' \<noteq> []" by simp
  have len: "length (js ''  A big cat.  '') \<le> 150" by simp
  note t = card_ellipsis_on_every_description [of lion "js ''user-2''" "initial lion"]
  from t [THEN conjunct1, THEN spec, THEN mp, THEN mp, OF dl ne, THEN conjunct2, THEN mp, OF len]
  obtain l t r where d: "js ''  A big cat.  '' = l @ t @ r"
    and l: "\<forall>c \<in> set l. is_white_space c" and r: "\<forall>c \<in> set r. is_white_space c"
    and e: "t = [] \<or> \<not> is_white_space (hd t) \<and> \<not> is_white_space (last t)"
    and c: "card_paragraphs (SpeciesCard lion (js ''user-2'') (initial lion)) = [t @ js ''...'']"
    by blast
  from js_trim_unique [OF l r e] d have "t = js_trim (js ''  A big cat.  '')" by simp
  then have "t = js ''A big cat.''" by (simp only: sample_padded)
  with c have 1: "card_paragraphs (SpeciesCard lion (js ''user-2'') (initial lion)) = [js ''A big cat....'']"
    by (simp add: js_def)
  from card_ellipsis_on_every_description [of "lion\<lparr>description := None\<rparr>" "js ''user-2''" "initial lion"]
  have 2: "card_paragraphs (SpeciesCard (lion\<lparr>description := None\<rparr>) (js ''user-2'') (initial lion)) = [[]]"
    by simp
  from card_ellipsis_on_every_description [of "lion\<lparr>description := Some []\<rparr>" "js ''user-2''" "initial lion"]
  have 3: "card_paragraphs (SpeciesCard (lion\<lparr>description := Some []\<rparr>) (js ''user-2'') (initial lion)) = [[]]"
    by simp
  from 1 2 3 show ?thesis by simp
qed

text \<open>
  C2. The tree the component returns holds a button labelled Edit Species, and one
  labelled Delete Species, exactly when the author of the row is the session identifier,
  in every state. Both are in the content of the detail dialog, so with the dialog open
  they are among the controls a user can reach exactly when the two identifiers agree.
\<close>

theorem edit_delete_controls_iff_author:
  "(js ''Edit Species'' \<in> set (button_labels (SpeciesCard sp sessionId st)) \<longleftrightarrow> author sp = sessionId) \<and>
   (js ''Delete Species'' \<in> set (button_labels (SpeciesCard sp sessionId st)) \<longleftrightarrow> author sp = sessionId) \<and>
   (open_flag st \<longrightarrow>
      (ButtonControl (Some SetOpen) (js ''Edit Species'') [Set SetIsEditing True]
         \<in> set (controls no_ctx (SpeciesCard sp sessionId st)) \<longleftrightarrow> author sp = sessionId) \<and>
      (ButtonControl (Some SetOpen) (js ''Delete Species'') [Set SetIsDeleting True]
         \<in> set (controls no_ctx (SpeciesCard sp sessionId st)) \<longleftrightarrow> author sp = sessionId))"
  by (auto simp: button_labels_card button_labels_detail button_labels_edit button_labels_delete
      controls_card controls_detail controls_edit controls_delete)

theorem edit_delete_controls_iff_author_witness:
  "js ''Edit Species'' \<in> set (button_labels (SpeciesCard lion (js ''user-1'') lion_dialogs)) \<and>
   js ''Delete Species'' \<in> set (button_labels (SpeciesCard lion (js ''user-1'') lion_dialogs)) \<and>
   js ''Edit Species'' \<notin> set (button_labels (SpeciesCard lion (js ''user-2'') lion_dialogs)) \<and>
   js ''Delete Species'' \<notin> set (button_labels (SpeciesCard lion (js ''user-2'') lion_dialogs)) \<and>
   ButtonControl (Some SetOpen) (js ''Edit Species'') [Set SetIsEditing True]
     \<in> set (controls no_ctx (SpeciesCard lion (js ''user-1'') lion_dialogs)) \<and>
   ButtonControl (Some SetOpen) (js ''Delete Species'') [Set SetIsDeleting True]
     \<notin> set (controls no_ctx (SpeciesCard lion (js ''user-2'') lion_dialogs))"
  using edit_delete_controls_iff_author [of lion "js ''user-1''" lion_dialogs]
    edit_delete_controls_iff_author [of lion "js ''user-2''" lion_dialogs]
  by (simp add: lion_def lion_dialogs_def)

text \<open>
  C3. A submission of the edit form is \<open>form.handleSubmit(onSubmit)\<close>, which a click on
  Save Changes calls. With the empty string as the scientific name of the form it issues
  no request and no other effect, leaves the flags of the dialogs and the values as they
  were, and sets the error of the field. The tree of the new state, the edit dialog being
  open, holds the \<open>FormMessage\<close> of the field, and the one message it shows for the field
  is "Scientific name is required.". Put the other way round: whatever the session and the
  state it starts in, every update it sends carries a scientific name that is a non-empty
  string.
\<close>

theorem empty_scientific_name_blocks_submit:
  "(formValues (form st) ''scientific_name'' = Some (Str []) \<longrightarrow>
      (case perform e sp HandleSubmit ev r st of
         (st', fx) \<Rightarrow>
           fx = [] \<and>
           open_flag st' = open_flag st \<and> isEditing st' = isEditing st \<and>
           isDeleting st' = isDeleting st \<and>
           formValues (form st') = formValues (form st) \<and>
           formErrors (form st') ''scientific_name'' = Some (js ''Scientific name is required.'') \<and>
           FormMessage (form st') ''scientific_name'' =
             Element ''FormMessage'' [] [str ''Scientific name is required.''] \<and>
           (isEditing st \<longrightarrow>
              FormMessage (form st') ''scientific_name'' \<in> set (elements (SpeciesCard sp sessionId st')) \<and>
              field_messages ''scientific_name'' (SpeciesCard sp sessionId st') =
                [js ''Scientific name is required.'']))) \<and>
   (isEditing st \<longrightarrow>
      step e sp sessionId (Click (Some SetIsEditing) (js ''Save Changes'')) r st =
        perform e sp HandleSubmit ev r st) \<and>
   (\<forall>cs st0 i d.
      SupabaseUpdate i d \<in> set (snd (calls e sp sessionId cs st0)) \<longrightarrow>
      (\<exists>s. s \<noteq> [] \<and> d ''scientific_name'' = Some (Str s)))"
proof (intro conjI impI allI)
  assume a: "formValues (form st) ''scientific_name'' = Some (Str [])"
  define st' where
    "st' = st\<lparr>form := (form st)\<lparr>formErrors := map_of (issues_of (speciesSchema e) (formValues (form st)))\<rparr>\<rparr>"
  from a have iss: "issues_of (speciesSchema e) (formValues (form st)) \<noteq> []"
    and m: "map_of (issues_of (speciesSchema e) (formValues (form st))) ''scientific_name'' =
           Some (js ''Scientific name is required.'')"
    using issues_scientific_name_empty [of "formValues (form st)" e] by simp_all
  from iss have p: "perform e sp HandleSubmit ev r st = (st', [])"
    by (simp add: handleSubmit_cases st'_def)
  from m have err: "formErrors (form st') ''scientific_name'' = Some (js ''Scientific name is required.'')"
    by (simp add: st'_def)
  have shown: "FormMessage (form st') ''scientific_name'' \<in> set (elements (SpeciesCard sp sessionId st')) \<and>
        field_messages ''scientific_name'' (SpeciesCard sp sessionId st') = [js ''Scientific name is required.'']"
    if "isEditing st"
  proof -
    from that have ed: "isEditing st'" by (simp add: st'_def)
    from FormMessage_in_card [OF ed] ed err show ?thesis
      by (simp add: field_messages_card field_messages_edit)
  qed
  from err shown show "case perform e sp HandleSubmit ev r st of
         (st', fx) \<Rightarrow>
           fx = [] \<and>
           open_flag st' = open_flag st \<and> isEditing st' = isEditing st \<and>
           isDeleting st' = isDeleting st \<and>
           formValues (form st') = formValues (form st) \<and>
           formErrors (form st') ''scientific_name'' = Some (js ''Scientific name is required.'') \<and>
           FormMessage (form st') ''scientific_name'' =
             Element ''FormMessage'' [] [str ''Scientific name is required.''] \<and>
           (isEditing st \<longrightarrow>
              FormMessage (form st') ''scientific_name'' \<in> set (elements (SpeciesCard sp sessionId st')) \<and>
              field_messages ''scientific_name'' (SpeciesCard sp sessionId st') =
                [js ''Scientific name is required.''])"
    unfolding p by (simp add: FormMessage_def str_def) (simp add: st'_def)
next
  assume "isEditing st"
  then show "step e sp sessionId (Click (Some SetIsEditing) (js ''Save Changes'')) r st =
        perform e sp HandleSubmit ev r st"
    by (simp add: step_save_changes)
next
  fix cs st0 i d
  assume u: "SupabaseUpdate i d \<in> set (snd (calls e sp sessionId cs st0))"
  obtain st' fx where p: "calls e sp sessionId cs st0 = (st', fx)"
    by (cases "calls e sp sessionId cs st0")
  with u calls_updates_valid [OF p, of i d]
  show "\<exists>s. s \<noteq> [] \<and> d ''scientific_name'' = Some (Str s)" by simp
qed

theorem empty_scientific_name_blocks_submit_witness:
  "snd (step sample_env lion (js ''user-1'') (Click (Some SetIsEditing) (js ''Save Changes''))
          NoError lion_blank_name) = [] \<and>
   formErrors (form (fst (step sample_env lion (js ''user-1'')
       (Click (Some SetIsEditing) (js ''Save Changes'')) NoError lion_blank_name))) ''scientific_name'' =
     Some (js ''Scientific name is required.'') \<and>
   field_messages ''scientific_name''
     (SpeciesCard lion (js ''user-1'') (fst (step sample_env lion (js ''user-1'')
       (Click (Some SetIsEditing) (js ''Save Changes'')) NoError lion_blank_name))) =
     [js ''Scientific name is required.''] \<and>
   field_messages ''scientific_name'' (SpeciesCard lion (js ''user-1'') lion_blank_name) = [[]]"
proof -
  have h: "formValues (form lion_blank_name) ''scientific_name'' = Some (Str [])"
    by (simp add: lion_blank_name_def)
  have ed: "isEditing lion_blank_name" by simp
  have before: "field_messages ''scientific_name'' (SpeciesCard lion (js ''user-1'') lion_blank_name) = [[]]"
    by (simp add: field_messages_card field_messages_edit)
      (simp add: lion_blank_name_def lion_dialogs_def initial_def useForm_def)
  note t = empty_scientific_name_blocks_submit
    [where st = lion_blank_name and e = sample_env and sp = lion and ev = cleared and r = NoError
      and sessionId = "js ''user-1''"]
  from t [THEN conjunct1, THEN mp, OF h] t [THEN conjunct2, THEN conjunct1, THEN mp, OF ed] ed before
  show ?thesis by (simp split: prod.splits)
qed

text \<open>
  C4. \<open>onSubmit\<close> sends the update it is given under the identifier of the row. When the
  backend answers without an error, the edit dialog is closed, the values and the default
  values of the form are the submitted data, the page is refreshed and the success toast
  is shown. When it answers with an error, the state is the one before (the dialog stays
  as it was, the form keeps its values) and the only other effect is the destructive toast
  with the message of the error. In every state a session reaches from the initial one, a
  submission of values that pass the schema, so also a click on Save Changes, is exactly
  \<open>onSubmit\<close> on the parsed values in that state.
\<close>

theorem update_success_and_failure:
  "onSubmit sp data NoError st =
     (st\<lparr>isEditing := False,
         form := \<lparr>formValues = data, formDefaults = data, formErrors = Map.empty\<rparr>\<rparr>,
      [SupabaseUpdate (species_id sp) data, RouterRefresh,
       Toast (js ''Species updated successfully!'') None None]) \<and>
   onSubmit sp data (Error message) st =
     (st,
      [SupabaseUpdate (species_id sp) data,
       Toast (js ''Something went wrong.'') (Some message) (Some (js ''destructive''))]) \<and>
   (\<forall>cs parsed ev r.
      (let st1 = fst (calls e sp sessionId cs (initial sp)) in
         zodResolver (speciesSchema e) (formValues (form st1)) = Inr parsed \<longrightarrow>
         perform e sp HandleSubmit ev r st1 = onSubmit sp parsed r st1 \<and>
         (isEditing st1 \<longrightarrow>
            step e sp sessionId (Click (Some SetIsEditing) (js ''Save Changes'')) r st1 =
              onSubmit sp parsed r st1)))"
proof (intro conjI allI)
  show "onSubmit sp data NoError st =
     (st\<lparr>isEditing := False,
         form := \<lparr>formValues = data, formDefaults = data, formErrors = Map.empty\<rparr>\<rparr>,
      [SupabaseUpdate (species_id sp) data, RouterRefresh,
       Toast (js ''Species updated successfully!'') None None])"
    by (simp add: onSubmit_def form_reset_def)
  show "onSubmit sp data (Error message) st =
     (st,
      [SupabaseUpdate (species_id sp) data,
       Toast (js ''Something went wrong.'') (Some message) (Some (js ''destructive''))])"
    by (simp add: onSubmit_def)
next
  fix cs parsed ev r
  define st1 where "st1 = fst (calls e sp sessionId cs (initial sp))"
  have "perform e sp HandleSubmit ev r st1 = onSubmit sp parsed r st1 \<and>
         (isEditing st1 \<longrightarrow>
            step e sp sessionId (Click (Some SetIsEditing) (js ''Save Changes'')) r st1 =
              onSubmit sp parsed r st1)"
    if v: "zodResolver (speciesSchema e) (formValues (form st1)) = Inr parsed"
  proof -
    obtain fx where p: "calls e sp sessionId cs (initial sp) = (st1, fx)"
      by (cases "calls e sp sessionId cs (initial sp)") (simp add: st1_def)
    from v have iss: "issues_of (speciesSchema e) (formValues (form st1)) = []"
      and parsed: "parsed = parsed_of (speciesSchema e) (formValues (form st1))"
      by (simp_all add: zodResolver_Inr)
    from reachable_valid_no_errors [OF p iss] iss parsed show ?thesis
      by (simp add: step_save_changes handleSubmit_cases)
  qed
  then show "let st1 = fst (calls e sp sessionId cs (initial sp)) in
         zodResolver (speciesSchema e) (formValues (form st1)) = Inr parsed \<longrightarrow>
         perform e sp HandleSubmit ev r st1 = onSubmit sp parsed r st1 \<and>
         (isEditing st1 \<longrightarrow>
            step e sp sessionId (Click (Some SetIsEditing) (js ''Save Changes'')) r st1 =
              onSubmit sp parsed r st1)"
    unfolding Let_def st1_def [symmetric] by blast
qed

theorem update_success_and_failure_witness:
  "step sample_env lion (js ''user-1'') (Click (Some SetIsEditing) (js ''Save Changes''))
     (Error (js ''boom'')) ((initial lion)\<lparr>open_flag := True, isEditing := True\<rparr>) =
   ((initial lion)\<lparr>open_flag := True, isEditing := True\<rparr>,
    [SupabaseUpdate 7 (parsed_of (speciesSchema sample_env) (defaultValues lion)),
     Toast (js ''Something went wrong.'') (Some (js ''boom'')) (Some (js ''destructive''))])"
proof -
  let ?st = "(initial lion)\<lparr>open_flag := True, isEditing := True\<rparr>"
  let ?parsed = "parsed_of (speciesSchema sample_env) (defaultValues lion)"
  have st: "fst (calls sample_env lion (js ''user-1'') open_then_edit (initial lion)) = ?st"
    by (simp add: sample_session)
  have v: "zodResolver (speciesSchema sample_env) (formValues (form ?st)) = Inr ?parsed"
    by (simp add: zodResolver_Inr sample_valid initial_def useForm_def)
  note t = update_success_and_failure [of lion ?parsed ?st "js ''boom''" sample_env "js ''user-1''",
      THEN conjunct2, THEN conjunct2, THEN spec, THEN spec, THEN spec, THEN spec,
      of open_then_edit ?parsed cleared "Error (js ''boom'')"]
  from t have "step sample_env lion (js ''user-1'') (Click (Some SetIsEditing) (js ''Save Changes''))
          (Error (js ''boom'')) ?st = onSubmit lion ?parsed (Error (js ''boom'')) ?st"
    using st v by (simp add: Let_def)
  moreover have "onSubmit lion ?parsed (Error (js ''boom'')) ?st =
     (?st, [SupabaseUpdate 7 ?parsed,
            Toast (js ''Something went wrong.'') (Some (js ''boom'')) (Some (js ''destructive''))])"
    by (simp add: onSubmit_def lion_def)
  ultimately show ?thesis by simp
qed

text \<open>
  C5. \<open>handleDelete\<close> sends one delete request, for the identifier of the row; when the
  backend answers without an error the confirmation dialog is closed, the page is
  refreshed and the success toast is shown, and when it answers with an error the state
  is unchanged and the only other effect is the destructive toast with the message.
  Closing the dialog sets its flag and has no effect outside. With the dialog open, a
  click on Confirm Delete is \<open>handleDelete\<close>, and a click on Cancel, like any other way
  of dismissing the dialog, is the closing.
\<close>

theorem delete_confirm_and_cancel:
  "perform e sp HandleDelete ev NoError st =
     (st\<lparr>isDeleting := False\<rparr>,
      [SupabaseDelete (species_id sp), RouterRefresh,
       Toast (js ''Species deleted successfully!'') None None]) \<and>
   perform e sp HandleDelete ev (Error message) st =
     (st,
      [SupabaseDelete (species_id sp),
       Toast (js ''Something went wrong.'') (Some message) (Some (js ''destructive''))]) \<and>
   perform e sp (Set SetIsDeleting False) ev r st = (st\<lparr>isDeleting := False\<rparr>, []) \<and>
   (isDeleting st \<longrightarrow>
      step e sp sessionId (Click (Some SetIsDeleting) (js ''Confirm Delete'')) r st =
        perform e sp HandleDelete ev r st \<and>
      step e sp sessionId (Click (Some SetIsDeleting) (js ''Cancel'')) r st =
        perform e sp (Set SetIsDeleting False) ev r st \<and>
      step e sp sessionId (Dismiss SetIsDeleting) r st =
        perform e sp (Set SetIsDeleting False) ev r st)"
  by (simp add: step_confirm_delete step_cancel_delete step_dismiss_delete handleDelete_def)

theorem delete_confirm_and_cancel_witness:
  "step sample_env lion (js ''user-1'') (Click (Some SetIsDeleting) (js ''Confirm Delete'')) NoError
     lion_dialogs =
     (lion_dialogs\<lparr>isDeleting := False\<rparr>,
      [SupabaseDelete 7, RouterRefresh, Toast (js ''Species deleted successfully!'') None None]) \<and>
   step sample_env lion (js ''user-1'') (Click (Some SetIsDeleting) (js ''Cancel'')) NoError
     lion_dialogs =
     (lion_dialogs\<lparr>isDeleting := False\<rparr>, [])"
proof -
  have h: "isDeleting lion_dialogs" by simp
  have i: "species_id lion = 7" by (simp add: lion_def)
  note t = delete_confirm_and_cancel [of sample_env lion cleared lion_dialogs "js ''boom''" NoError "js ''user-1''"]
  from t [THEN conjunct1] t [THEN conjunct2, THEN conjunct2, THEN conjunct1]
    t [THEN conjunct2, THEN conjunct2, THEN conjunct2, THEN mp, OF h]
  show ?thesis by (simp add: i)
qed

text \<open>
  C6. With an image value that is a string \<open>new URL\<close> rejects, a submission of the edit
  form, which a click on Save Changes calls, issues no request and no other effect. Put
  the other way round: every update a session sends carries an image that is \<open>null\<close> or a
  string the URL parser accepts.
\<close>

theorem non_url_image_blocks_submit:
  "(formValues (form st) ''image'' = Some (Str s) \<and> \<not> URL_parses e s \<longrightarrow>
      snd (perform e sp HandleSubmit ev r st) = []) \<and>
   (isEditing st \<longrightarrow>
      step e sp sessionId (Click (Some SetIsEditing) (js ''Save Changes'')) r st =
        perform e sp HandleSubmit ev r st) \<and>
   (\<forall>cs st0 i d.
      SupabaseUpdate i d \<in> set (snd (calls e sp sessionId cs st0)) \<longrightarrow>
      d ''image'' = Some Null \<or> (\<exists>u. URL_parses e u \<and> d ''image'' = Some (Str u)))"
proof (intro conjI impI allI)
  assume a: "formValues (form st) ''image'' = Some (Str s) \<and> \<not> URL_parses e s"
  then have "issues_of (speciesSchema e) (formValues (form st)) \<noteq> []"
    using issues_image_not_url [of "formValues (form st)" s e] by simp
  then show "snd (perform e sp HandleSubmit ev r st) = []"
    by (simp add: handleSubmit_cases)
next
  assume "isEditing st"
  then show "step e sp sessionId (Click (Some SetIsEditing) (js ''Save Changes'')) r st =
        perform e sp HandleSubmit ev r st"
    by (simp add: step_save_changes)
next
  fix cs st0 i d
  assume u: "SupabaseUpdate i d \<in> set (snd (calls e sp sessionId cs st0))"
  obtain st' fx where p: "calls e sp sessionId cs st0 = (st', fx)"
    by (cases "calls e sp sessionId cs st0")
  with u calls_updates_valid [OF p, of i d]
  show "d ''image'' = Some Null \<or> (\<exists>u. URL_parses e u \<and> d ''image'' = Some (Str u))" by simp
qed

theorem non_url_image_blocks_submit_witness:
  "snd (step sample_env lion (js ''user-1'') (Click (Some SetIsEditing) (js ''Save Changes''))
          NoError lion_bad_image) = []"
proof -
  have h: "formValues (form lion_bad_image) ''image'' = Some (Str (js ''not a url'')) \<and>
           \<not> URL_parses sample_env (js ''not a url'')"
    by (simp add: lion_bad_image_def sample_not_a_url)
  have ed: "isEditing lion_bad_image" by simp
  note t = non_url_image_blocks_submit
    [of lion_bad_image "js ''not a url''" sample_env lion cleared NoError "js ''user-1''"]
  from t [THEN conjunct1, THEN mp, OF h] t [THEN conjunct2, THEN conjunct1, THEN mp, OF ed]
  show ?thesis by simp
qed

text \<open>
  C9. The \<open>onChange\<close> of the Total Population input, which a change of the input calls,
  stores \<open>Number\<close> of the text of the input: \<open>0\<close> when the input was cleared or holds
  white space only, and otherwise what the text without the white space around it reads
  as. From that edit on the value of the field in the form is a number and every update
  sent carries a number, not \<open>null\<close>, as the total population, provided that no update
  in flight at the edit carries anything else: the answer to an update resets the form to
  the data of that update.
\<close>

theorem total_population_edit_stores_number:
  "(let st1 = fst (perform e sp (FieldOnChangeNumber ''total_population'') ev r st) in
      formValues (form st1) ''total_population'' = Some (Num (Number_js e (target_value ev))) \<and>
      (target_value ev = [] \<longrightarrow> formValues (form st1) ''total_population'' = Some (Num (Finite 0))) \<and>
      (js_trim (target_value ev) = [] \<longrightarrow>
         formValues (form st1) ''total_population'' = Some (Num (Finite 0))) \<and>
      (js_trim (target_value ev) \<noteq> [] \<longrightarrow>
         formValues (form st1) ''total_population'' =
           Some (Num (string_numeric_literal e (js_trim (target_value ev))))) \<and>
      (\<forall>cs qs.
         (\<forall>d. UpdateRequest d \<in> set qs \<longrightarrow> (\<exists>n. d ''total_population'' = Some (Num n))) \<longrightarrow>
         (\<exists>n. formValues (form (fst (calls_from e sp sessionId cs qs st1))) ''total_population'' =
                Some (Num n)) \<and>
         (\<forall>i d.
            SupabaseUpdate i d \<in> set (snd (calls_from e sp sessionId cs qs st1)) \<longrightarrow>
            (\<exists>n. d ''total_population'' = Some (Num n))))) \<and>
   (isEditing st \<longrightarrow>
      step e sp sessionId (Change ''total_population'' ev) r st =
        perform e sp (FieldOnChangeNumber ''total_population'') ev r st)"
proof (intro conjI impI)
  define st1 where "st1 = fst (perform e sp (FieldOnChangeNumber ''total_population'') ev r st)"
  have v: "formValues (form st1) ''total_population'' = Some (Num (Number_js e (target_value ev)))"
    by (simp add: st1_def field_onChange_def Let_def)
  then have I: "\<exists>n. formValues (form st1) ''total_population'' = Some (Num n)" by blast
  have inv: "(\<exists>n. formValues (form (fst (calls_from e sp sessionId cs qs st1))) ''total_population'' =
                Some (Num n)) \<and>
        (\<forall>i d. SupabaseUpdate i d \<in> set (snd (calls_from e sp sessionId cs qs st1)) \<longrightarrow>
           (\<exists>n. d ''total_population'' = Some (Num n)))"
    if q: "\<forall>d. UpdateRequest d \<in> set qs \<longrightarrow> (\<exists>n. d ''total_population'' = Some (Num n))" for cs qs
  proof -
    obtain st' fx where p: "calls_from e sp sessionId cs qs st1 = (st', fx)"
      by (cases "calls_from e sp sessionId cs qs st1")
    from q have Q: "\<forall>q \<in> set qs. \<forall>d. q = UpdateRequest d \<longrightarrow> (\<exists>n. d ''total_population'' = Some (Num n))"
      by blast
    from calls_from_total_population [OF I Q p] p show ?thesis by auto
  qed
  from v have blank: "js_trim (target_value ev) = [] \<longrightarrow>
         formValues (form st1) ''total_population'' = Some (Num (Finite 0))"
    and read: "js_trim (target_value ev) \<noteq> [] \<longrightarrow>
         formValues (form st1) ''total_population'' =
           Some (Num (string_numeric_literal e (js_trim (target_value ev))))"
    by (simp_all add: Number_js_def Let_def)
  from v have empty: "target_value ev = [] \<longrightarrow> formValues (form st1) ''total_population'' = Some (Num (Finite 0))"
    by simp
  from v empty blank read inv
  show "let st1 = fst (perform e sp (FieldOnChangeNumber ''total_population'') ev r st) in
      formValues (form st1) ''total_population'' = Some (Num (Number_js e (target_value ev))) \<and>
      (target_value ev = [] \<longrightarrow> formValues (form st1) ''total_population'' = Some (Num (Finite 0))) \<and>
      (js_trim (target_value ev) = [] \<longrightarrow>
         formValues (form st1) ''total_population'' = Some (Num (Finite 0))) \<and>
      (js_trim (target_value ev) \<noteq> [] \<longrightarrow>
         formValues (form st1) ''total_population'' =
           Some (Num (string_numeric_literal e (js_trim (target_value ev))))) \<and>
      (\<forall>cs qs.
         (\<forall>d. UpdateRequest d \<in> set qs \<longrightarrow> (\<exists>n. d ''total_population'' = Some (Num n))) \<longrightarrow>
         (\<exists>n. formValues (form (fst (calls_from e sp sessionId cs qs st1))) ''total_population'' =
                Some (Num n)) \<and>
         (\<forall>i d.
            SupabaseUpdate i d \<in> set (snd (calls_from e sp sessionId cs qs st1)) \<longrightarrow>
            (\<exists>n. d ''total_population'' = Some (Num n))))"
    unfolding Let_def st1_def [symmetric] by blast
next
  assume "isEditing st"
  then show "step e sp sessionId (Change ''total_population'' ev) r st =
        perform e sp (FieldOnChangeNumber ''total_population'') ev r st"
    by (rule step_change_total_population)
qed

theorem total_population_edit_stores_number_witness:
  "formValues (form (fst (step sample_env lion (js ''user-1'') (Change ''total_population'' forty_two)
      NoError lion_dialogs))) ''total_population'' = Some (Num (Finite 42)) \<and>
   formValues (form (fst (step sample_env lion (js ''user-1'') (Change ''total_population'' cleared)
      NoError lion_dialogs))) ''total_population'' = Some (Num (Finite 0)) \<and>
   sent ''total_population''
     (snd (calls_from sample_env lion (js ''user-1'') [Call HandleSubmit cleared, Answer 0 NoError] []
        (fst (step sample_env lion (js ''user-1'') (Change ''total_population'' forty_two)
           NoError lion_dialogs)))) = [Some (Num (Finite 42))]"
proof -
  let ?st1 = "fst (perform sample_env lion (FieldOnChangeNumber ''total_population'') forty_two NoError
      lion_dialogs)"
  let ?cs = "[Call HandleSubmit cleared, Answer 0 NoError]"
  have h: "isEditing lion_dialogs" by simp
  have c: "target_value cleared = []" by (simp add: cleared_def)
  have f: "js_trim (target_value forty_two) \<noteq> []"
    by (simp add: forty_two_def sample_padded_42)
  have n: "string_numeric_literal sample_env (js_trim (target_value forty_two)) = Finite 42"
    by (simp add: forty_two_def sample_padded_42) (simp add: sample_env_def decimal_def js_def)
  have q: "\<forall>d. UpdateRequest d \<in> set [] \<longrightarrow> (\<exists>n. d ''total_population'' = Some (Num n))" by simp
  note t = total_population_edit_stores_number [where e = sample_env and sp = lion and r = NoError
      and st = lion_dialogs and sessionId = "js ''user-1''"]
  note a = t [where ev = forty_two, THEN conjunct1, unfolded Let_def]
  note b = t [where ev = cleared, THEN conjunct1, unfolded Let_def]
  from a [THEN conjunct2, THEN conjunct2, THEN conjunct2, THEN conjunct1, THEN mp, OF f] n
  have 1: "formValues (form ?st1) ''total_population'' = Some (Num (Finite 42))" by simp
  from b [THEN conjunct2, THEN conjunct1, THEN mp, OF c]
  have 2: "formValues (form (fst (perform sample_env lion (FieldOnChangeNumber ''total_population'') cleared
      NoError lion_dialogs))) ''total_population'' = Some (Num (Finite 0))" .
  from a [THEN conjunct2, THEN conjunct2, THEN conjunct2, THEN conjunct2, THEN spec, THEN spec, THEN mp,
      OF q, THEN conjunct2, of ?cs]
  have 3: "\<forall>i d. SupabaseUpdate i d \<in> set (snd (calls_from sample_env lion (js ''user-1'') ?cs [] ?st1)) \<longrightarrow>
      (\<exists>n. d ''total_population'' = Some (Num n))" .
  have v: "issues_of (speciesSchema sample_env) (formValues (form ?st1)) = []"
    by (simp add: schema_eval lion_dialogs_def initial_def useForm_def field_onChange_def Let_def
        sample_forty_two forty_two_def)
  have ed: "isEditing ?st1" by simp
  have s: "snd (calls_from sample_env lion (js ''user-1'') ?cs [] ?st1) =
      [SupabaseUpdate 7 (parsed_of (speciesSchema sample_env) (formValues (form ?st1))),
       RouterRefresh, Toast (js ''Species updated successfully!'') None None]"
    using v ed
    by (simp add: attached_card attached_detail attached_edit invoke_HandleSubmit resume_def
        del: invoke.simps(1) perform.simps)
  from 1 v have p: "parsed_of (speciesSchema sample_env) (formValues (form ?st1)) ''total_population'' =
      Some (Num (Finite 42))"
    by (rule parsed_total_population [rotated])
  from s p have 4: "sent ''total_population'' (snd (calls_from sample_env lion (js ''user-1'') ?cs [] ?st1)) =
      [Some (Num (Finite 42))]"
    by (simp add: sent_def)
  from t [where ev = forty_two, THEN conjunct2, THEN mp, OF h]
    t [where ev = cleared, THEN conjunct2, THEN mp, OF h] 1 2 4
  show ?thesis by simp
qed

text \<open>
  C9, as the specification has it, ends: a submitted update can never set the total
  population to \<open>null\<close> through the form. It can. The row has no total population. Save
  Changes sends it as it is, \<open>null\<close>; while that request is in flight the field is
  cleared, which stores \<open>0\<close>; the answer arrives and \<open>form.reset(data)\<close> puts the data of
  the request, with its \<open>null\<close>, back in the form; the edit dialog is opened again and
  Save Changes sends \<open>null\<close>.
\<close>

theorem total_population_null_after_edit:
  "formValues (form (fst (calls sample_env lion (js ''user-1'')
       (take 4 (save_edit_answer_save (FieldOnChangeNumber ''total_population''))) (initial lion))))
     ''total_population'' = Some (Num (Finite 0)) \<and>
   sent ''total_population'' (snd (calls sample_env lion (js ''user-1'')
       (take 4 (save_edit_answer_save (FieldOnChangeNumber ''total_population''))) (initial lion))) =
     [Some Null] \<and>
   sent ''total_population'' (snd (calls sample_env lion (js ''user-1'')
       (save_edit_answer_save (FieldOnChangeNumber ''total_population'')) (initial lion))) =
     [Some Null, Some Null]"
  by (simp add: session_eval sent_def sample_data sample_data_again del: invoke.simps(1))

text \<open>
  C10. The \<open>onChange\<close> of the Image URL input, which a change of the input calls, stores
  the text of the input: the empty string, not \<open>null\<close>, when the input was cleared. The
  empty string is no URL, the field gets the error of the schema, and a submission in that
  state issues no request. From that edit on the value of the field in the form is a
  string, and every update sent carries a string that is a URL as the image, never
  \<open>null\<close>, provided that no update in flight at the edit carries anything but a string:
  the answer to an update resets the form to the data of that update.
\<close>

theorem cleared_image_is_empty_string:
  "(target_value ev = [] \<longrightarrow>
      (let st1 = fst (perform e sp (FieldOnChange ''image'') ev r st) in
         formValues (form st1) ''image'' = Some (Str []) \<and>
         \<not> URL_parses e [] \<and>
         formErrors (form st1) ''image'' = Some (default_message e ''invalid_string'') \<and>
         snd (perform e sp HandleSubmit ev' r' st1) = [] \<and>
         (\<forall>cs qs.
            (\<forall>d. UpdateRequest d \<in> set qs \<longrightarrow> (\<exists>s. d ''image'' = Some (Str s))) \<longrightarrow>
            (\<exists>s. formValues (form (fst (calls_from e sp sessionId cs qs st1))) ''image'' = Some (Str s)) \<and>
            (\<forall>i d.
               SupabaseUpdate i d \<in> set (snd (calls_from e sp sessionId cs qs st1)) \<longrightarrow>
               (\<exists>s. URL_parses e s \<and> d ''image'' = Some (Str s)))))) \<and>
   (isEditing st \<longrightarrow>
      step e sp sessionId (Change ''image'' ev) r st = perform e sp (FieldOnChange ''image'') ev r st \<and>
      isEditing (fst (perform e sp (FieldOnChange ''image'') ev r st)))"
proof (intro conjI impI)
  assume a: "target_value ev = []"
  define st1 where "st1 = fst (perform e sp (FieldOnChange ''image'') ev r st)"
  let ?vals = "(formValues (form st))(''image'' \<mapsto> Str [])"
  have st1: "st1 = st\<lparr>form := field_onChange (speciesSchema e) ''image'' (Str []) (form st)\<rparr>"
    using a by (simp add: st1_def)
  have v: "formValues (form st1) ''image'' = Some (Str [])"
    by (simp add: st1 field_onChange_def Let_def)
  have z: "z_nullable (z_url e (z_string e)) (?vals ''image'') = Inl [default_message e ''invalid_string'']"
    by (simp add: z_image_Str)
  have iss: "issues_of (speciesSchema e) ?vals \<noteq> []"
    using issues_image_not_url [of ?vals "[]" e] by simp
  have "map_of (issues_of (speciesSchema e) ?vals) ''image'' = Some (default_message e ''invalid_string'')"
    using map_of_issues_key [of "speciesSchema e" "''image''" "z_nullable (z_url e (z_string e))" ?vals
        "default_message e ''invalid_string''" "[]"] speciesSchema_distinct image_in_schema z
    by simp
  with iss have err: "formErrors (form st1) ''image'' = Some (default_message e ''invalid_string'')"
    by (simp add: st1 field_onChange_def Let_def zodResolver_def safeParse_def)
  have blocked: "snd (perform e sp HandleSubmit ev' r' st1) = []"
  proof -
    have "issues_of (speciesSchema e) (formValues (form st1)) \<noteq> []"
      using issues_image_not_url [of "formValues (form st1)" "[]" e] v by simp
    then show ?thesis by (simp add: handleSubmit_cases)
  qed
  from v have I: "\<exists>s. formValues (form st1) ''image'' = Some (Str s)" by blast
  have inv: "(\<exists>s. formValues (form (fst (calls_from e sp sessionId cs qs st1))) ''image'' = Some (Str s)) \<and>
        (\<forall>i d. SupabaseUpdate i d \<in> set (snd (calls_from e sp sessionId cs qs st1)) \<longrightarrow>
           (\<exists>s. URL_parses e s \<and> d ''image'' = Some (Str s)))"
    if q: "\<forall>d. UpdateRequest d \<in> set qs \<longrightarrow> (\<exists>s. d ''image'' = Some (Str s))" for cs qs
  proof -
    obtain st' fx where p: "calls_from e sp sessionId cs qs st1 = (st', fx)"
      by (cases "calls_from e sp sessionId cs qs st1")
    from q have Q: "\<forall>q \<in> set qs. \<forall>d. q = UpdateRequest d \<longrightarrow> (\<exists>s. d ''image'' = Some (Str s))"
      by blast
    from calls_from_image [OF I Q p] p show ?thesis by auto
  qed
  show "let st1 = fst (perform e sp (FieldOnChange ''image'') ev r st) in
         formValues (form st1) ''image'' = Some (Str []) \<and>
         \<not> URL_parses e [] \<and>
         formErrors (form st1) ''image'' = Some (default_message e ''invalid_string'') \<and>
         snd (perform e sp HandleSubmit ev' r' st1) = [] \<and>
         (\<forall>cs qs.
            (\<forall>d. UpdateRequest d \<in> set qs \<longrightarrow> (\<exists>s. d ''image'' = Some (Str s))) \<longrightarrow>
            (\<exists>s. formValues (form (fst (calls_from e sp sessionId cs qs st1))) ''image'' = Some (Str s)) \<and>
            (\<forall>i d.
               SupabaseUpdate i d \<in> set (snd (calls_from e sp sessionId cs qs st1)) \<longrightarrow>
               (\<exists>s. URL_parses e s \<and> d ''image'' = Some (Str s))))"
    unfolding Let_def st1_def [symmetric]
  proof (intro conjI allI impI)
    show "formValues (form st1) ''image'' = Some (Str [])" by (rule v)
    show "\<not> URL_parses e []" by simp
    show "formErrors (form st1) ''image'' = Some (default_message e ''invalid_string'')" by (rule err)
    show "snd (perform e sp HandleSubmit ev' r' st1) = []" by (rule blocked)
  next
    fix cs qs
    assume q: "\<forall>d. UpdateRequest d \<in> set qs \<longrightarrow> (\<exists>s. d ''image'' = Some (Str s))"
    from inv [OF q]
    show "\<exists>s. formValues (form (fst (calls_from e sp sessionId cs qs st1))) ''image'' = Some (Str s)"
      by (rule conjunct1)
  next
    fix cs qs i d
    assume q: "\<forall>d. UpdateRequest d \<in> set qs \<longrightarrow> (\<exists>s. d ''image'' = Some (Str s))"
      and u: "SupabaseUpdate i d \<in> set (snd (calls_from e sp sessionId cs qs st1))"
    from inv [OF q, THEN conjunct2, THEN spec, THEN spec, THEN mp, OF u]
    show "\<exists>s. URL_parses e s \<and> d ''image'' = Some (Str s)" .
  qed
next
  assume "isEditing st"
  then show "step e sp sessionId (Change ''image'' ev) r st = perform e sp (FieldOnChange ''image'') ev r st"
    by (rule step_change_image)
next
  assume "isEditing st"
  then show "isEditing (fst (perform e sp (FieldOnChange ''image'') ev r st))" by simp
qed

theorem cleared_image_is_empty_string_witness:
  "formValues (form (fst (step sample_env lion (js ''user-1'') (Change ''image'' cleared)
      NoError lion_dialogs))) ''image'' = Some (Str []) \<and>
   snd (step sample_env lion (js ''user-1'') (Click (Some SetIsEditing) (js ''Save Changes'')) NoError
      (fst (step sample_env lion (js ''user-1'') (Change ''image'' cleared) NoError lion_dialogs))) = [] \<and>
   sent ''image''
     (snd (calls_from sample_env lion (js ''user-1'') [Call HandleSubmit cleared, Answer 0 NoError] []
        (fst (step sample_env lion (js ''user-1'') (Change ''image'' cleared) NoError lion_dialogs)))) = []"
proof -
  let ?st1 = "fst (perform sample_env lion (FieldOnChange ''image'') cleared NoError lion_dialogs)"
  let ?cs = "[Call HandleSubmit cleared, Answer 0 NoError]"
  have h: "isEditing lion_dialogs" by simp
  have c: "target_value cleared = []" by (simp add: cleared_def)
  have q: "\<forall>d. UpdateRequest d \<in> set [] \<longrightarrow> (\<exists>s. d ''image'' = Some (Str s))" by simp
  note t = cleared_image_is_empty_string [where ev = cleared and e = sample_env and sp = lion
      and r = NoError and st = lion_dialogs and ev' = cleared and r' = NoError
      and sessionId = "js ''user-1''"]
  note a = t [THEN conjunct1, THEN mp, OF c, unfolded Let_def]
  note b = t [THEN conjunct2, THEN mp, OF h]
  from b have ed: "isEditing ?st1" by simp
  have s: "step sample_env lion (js ''user-1'') (Click (Some SetIsEditing) (js ''Save Changes'')) NoError ?st1 =
           perform sample_env lion HandleSubmit cleared NoError ?st1"
    using ed by (simp add: step_save_changes)
  note v = a [THEN conjunct1]
  have "issues_of (speciesSchema sample_env) (formValues (form ?st1)) \<noteq> []"
    using issues_image_not_url [of "formValues (form ?st1)" "[]" sample_env] v by simp
  with ed have "snd (calls_from sample_env lion (js ''user-1'') ?cs [] ?st1) = []"
    by (simp add: attached_card attached_detail attached_edit invoke_HandleSubmit
        del: invoke.simps(1) perform.simps)
  then have 3: "sent ''image'' (snd (calls_from sample_env lion (js ''user-1'') ?cs [] ?st1)) = []"
    by (simp add: sent_def)
  from a [THEN conjunct2, THEN conjunct2, THEN conjunct2, THEN conjunct2, THEN spec, THEN spec, THEN mp,
      OF q, THEN conjunct1, of ?cs]
  have 4: "\<exists>s. formValues (form (fst (calls_from sample_env lion (js ''user-1'') ?cs [] ?st1))) ''image'' =
      Some (Str s)" .
  note blocked = a [THEN conjunct2, THEN conjunct2, THEN conjunct2, THEN conjunct1]
  from v blocked b [THEN conjunct1] s 3 show ?thesis by simp
qed

text \<open>
  C10, as the specification has it, ends: the image cannot be set back to \<open>null\<close> through
  the form. It can, the same way. The row has no image. Save Changes sends \<open>null\<close>; while
  that request is in flight the field is cleared, which stores the empty string; the
  answer arrives and \<open>form.reset(data)\<close> puts \<open>null\<close> back in the form; the edit dialog
  is opened again and Save Changes, no longer blocked, sends \<open>null\<close>.
\<close>

theorem image_null_after_clearing:
  "formValues (form (fst (calls sample_env lion (js ''user-1'')
       (take 4 (save_edit_answer_save (FieldOnChange ''image''))) (initial lion)))) ''image'' =
     Some (Str []) \<and>
   sent ''image'' (snd (calls sample_env lion (js ''user-1'')
       (take 4 (save_edit_answer_save (FieldOnChange ''image''))) (initial lion))) = [Some Null] \<and>
   sent ''image'' (snd (calls sample_env lion (js ''user-1'')
       (save_edit_answer_save (FieldOnChange ''image'')) (initial lion))) = [Some Null, Some Null]"
  by (simp add: session_eval sent_def sample_data sample_data_again del: invoke.simps(1))

end
